theory Spec2Isabelle
  imports Complex_Main "HOL-Library.Word" "HOL-Library.Sublist"
begin

section \<open>Murxla: the solver manager and the command line\<close>

text \<open>
  A shallow embedding of the parts of Murxla (a model-based API fuzzer for SMT solvers)
  that own its sampling state and its run configuration:
  \<^item> \<open>SolverManager\<close> (solver_manager.cpp): the sort database, the assumption set, the
    option-selection state and the sampling primitives built on the random number
    generator;
  \<^item> \<open>get_options\<close>, \<open>parse_options\<close> and \<open>main\<close> (main.cpp), with the defaults of
    \<open>Options\<close> (options.hpp) and the exit stream of except.cpp.

  The sources hold two revisions of solver_manager.cpp: the current one (namespace
  \<open>murxla\<close>) and an older one (namespace \<open>smtmbt\<close>). Functions of the current revision
  keep their names; where the older revision differs, its function is embedded too, with
  the prefix \<open>smtmbt_\<close>.

  Conventions. A failed \<open>assert\<close> aborts the process and is the error
  \<open>Assertion_failed\<close>; undefined behaviour of the C++ (a modulus by zero, a read past
  the end of a vector) is an error value as well, so that it is a branch of the model
  and not an unspecified HOL value. Reference parameters that a function updates are
  returned with the new state.
\<close>

subsection \<open>Errors\<close>

datatype ExitCode = EXIT_OK | EXIT_ERROR | EXIT_ERROR_CONFIG

datatype error =
    Assertion_failed
  | Division_by_zero
  | Index_out_of_bounds
  | Uncaught_exception
  | Pick_from_empty
  | Usage_exit
  | Exit ExitCode string

subsection \<open>The random number generator\<close>

text \<open>
  Modelled from the spec: \<open>RNGenerator\<close> (rng.hpp is not among the sources). The spec
  lists its primitives (\<open>pick<u32>(lo,hi)\<close>, \<open>flip_coin\<close>, \<open>pick_from_set\<close>,
  \<open>pick_from_map\<close>, \<open>pick_simple_symbol\<close>, \<open>pick_piped_symbol\<close>) and says that all
  sampling goes through the one seeded instance. The engine state is a value of an
  arbitrary type \<open>'g\<close>; every primitive takes it and returns the drawn value with the
  advanced engine. What a primitive draws is a parameter: the theorems below hold for
  every generator.
\<close>

record 'g RNGenerator =
  pick_uint32 :: "'g \<Rightarrow> 32 word \<times> 'g"
  pick_uint32_range :: "32 word \<Rightarrow> 32 word \<Rightarrow> 'g \<Rightarrow> 32 word \<times> 'g"
  flip_coin :: "'g \<Rightarrow> bool \<times> 'g"
  pick_piped_symbol :: "32 word \<Rightarrow> 'g \<Rightarrow> string \<times> 'g"
  pick_simple_symbol :: "32 word \<Rightarrow> 'g \<Rightarrow> string \<times> 'g"

text \<open>
  Modelled from the spec: \<open>pick_from_set\<close> and \<open>pick_from_map\<close> (rng.hpp is not among
  the sources). A container is the list of its elements (of its entries, for a map) in
  iteration order; the element picked is the one at the position that a fresh 32-bit
  draw selects, and \<open>pick_from_map\<close> returns the key of the entry. Picking from an
  empty container is the error \<open>Pick_from_empty\<close>.
\<close>

definition pick_from_set :: "'g RNGenerator \<Rightarrow> 'a list \<Rightarrow> 'g \<Rightarrow> error + ('a \<times> 'g)" where
  "pick_from_set R xs g =
     (if xs = [] then Inl Pick_from_empty
      else let (r, g') = pick_uint32 R g in Inr (xs ! (unat r mod length xs), g'))"

definition pick_from_map :: "'g RNGenerator \<Rightarrow> ('k \<times> 'v) list \<Rightarrow> 'g \<Rightarrow> error + ('k \<times> 'g)" where
  "pick_from_map R m g = pick_from_set R (map fst m) g"

text \<open>
  A deterministic stand-in engine for evaluating the model on concrete inputs: the
  engine state is a counter, every draw steps it; the 32-bit draw is the counter, the
  draw from a range is the lower bound plus the counter while that is in the range, the
  coin is the parity of the counter, and the symbols are made of the letter \<open>a\<close>.
\<close>

definition counter_rng :: "nat RNGenerator" where
  "counter_rng =
     \<lparr> pick_uint32 = (\<lambda>g. (of_nat g, Suc g)),
       pick_uint32_range = (\<lambda>lo hi g. (if lo + of_nat g \<le> hi then lo + of_nat g else lo, Suc g)),
       flip_coin = (\<lambda>g. (even g, Suc g)),
       pick_piped_symbol = (\<lambda>len g. (CHR ''|'' # replicate (unat len) CHR ''a'' @ ''|'', Suc g)),
       pick_simple_symbol = (\<lambda>len g. (replicate (unat len) CHR ''a'', Suc g)) \<rparr>"

subsection \<open>Solver options\<close>

text \<open>
  \<open>SolverOption\<close> (solver_option.hpp is not among the sources) as \<open>pick_option\<close> uses
  it: a name, the names of the options it conflicts with and depends on, and
  \<open>pick_value\<close>, which draws a value for the option from the generator.
\<close>

record 'g SolverOption =
  get_name :: string
  get_conflicts :: "string list"
  get_depends :: "string list"
  pick_value :: "'g \<Rightarrow> string \<times> 'g"

subsection \<open>Sorts, terms and operators\<close>

text \<open>
  The enumerations \<open>SortKind\<close> (sort.hpp) and \<open>TheoryId\<close> (theory.hpp) are not among
  the sources; their values are the ones the sources name.
\<close>

datatype SortKind =
    SORT_ARRAY | SORT_BOOL | SORT_BV | SORT_FP | SORT_FUN | SORT_INT | SORT_REAL
  | SORT_RM | SORT_STRING | SORT_REGLAN | SORT_ANY

datatype TheoryId =
    THEORY_ARRAY | THEORY_BAG | THEORY_BOOL | THEORY_BV | THEORY_DT | THEORY_FP
  | THEORY_INT | THEORY_QUANT | THEORY_REAL | THEORY_SEQ | THEORY_SET | THEORY_STRING
  | THEORY_TRANSCENDENTAL | THEORY_UF | THEORY_ALL

text \<open>
  \<open>AbsSort\<close> (solver.hpp): the id and the kind are the data members \<open>d_id\<close> and
  \<open>d_kind\<close>, which \<open>set_id\<close> and \<open>set_kind\<close> write; \<open>is_int\<close>, \<open>get_bv_size\<close> and the
  number of child sorts (\<open>get_sorts().size()\<close>) are what the back-end object reports.
  \<open>handle\<close> stands for the wrapped back-end sort.

  Modelled from the spec: \<open>operator==\<close> and \<open>std::hash\<close> on \<open>Sort\<close> (declared in
  solver.hpp, defined in solver.cpp, which is not among the sources). The spec says
  that two sorts are equal iff their back-end objects report equality; here the
  back-end objects are equal iff the handles are. \<open>SortSet\<close> is the unordered set of
  sorts under this equality: a list without two sorts of the same handle.

  \<open>Sort\<close> is a shared pointer, and \<open>add_sort\<close> writes the id and the kind of the object
  it is given. It does so only before the object enters the database (an object of the
  database has a kind other than \<open>SORT_ANY\<close>, and objects found in the database are not
  written), so the objects of the database can be held as values.
\<close>

record Sort =
  handle :: nat
  get_id :: "64 word"
  get_kind :: SortKind
  is_int :: bool
  get_bv_size :: "32 word"
  get_sorts_size :: nat

type_synonym SortSet = "Sort list"

definition sortset_find :: "Sort \<Rightarrow> SortSet \<Rightarrow> Sort option" where
  "sortset_find srt sorts = find (\<lambda>x. handle x = handle srt) sorts"

definition sortset_insert :: "Sort \<Rightarrow> SortSet \<Rightarrow> SortSet" where
  "sortset_insert srt sorts =
     (case sortset_find srt sorts of None \<Rightarrow> sorts @ [srt] | Some _ \<Rightarrow> sorts)"

text \<open>A term is its back-end handle: the manager only stores and compares terms.\<close>

type_synonym Term = nat

text \<open>
  \<open>Op\<close> (op.hpp is not among the sources) as \<open>pick_op_kind\<close> reads it: the kind, the
  arity (negative for operators with a variable number of arguments), the theory, and
  \<open>get_arg_sort_kind\<close>, the sort kind of the argument at a position. The kinds that
  the manager names are constructors; every other kind is \<open>OP\<close> with its name.
\<close>

datatype OpKind = OP_UNDEFINED | OP_FORALL | OP_EXISTS | OP string

record Op =
  d_kind :: OpKind
  d_arity :: int
  d_theory :: TheoryId
  get_arg_sort_kind :: "nat \<Rightarrow> SortKind"

text \<open>
  \<open>TermDb\<close> (term_db.hpp is not among the sources) as the manager queries it: whether a
  term of a sort kind, a variable, a quantifier body exists, and \<open>pick_term\<close> for a
  sort kind and a scope level.
\<close>

record 'g TermDb =
  has_term :: "SortKind \<Rightarrow> bool"
  has_var :: bool
  has_quant_body :: bool
  pick_term :: "SortKind \<Rightarrow> nat \<Rightarrow> 'g \<Rightarrow> Term \<times> 'g"

subsection \<open>The state of the solver manager\<close>

text \<open>
  The data members of \<open>SolverManager\<close> that the functions below read or write
  (solver_manager.hpp is not among the sources; the counters are taken to be
  \<open>uint64_t\<close>, as \<open>set_n_sorts\<close>, \<open>get_n_terms\<close> and \<open>AbsSort::set_id\<close> have them).
  \<open>d_op_kinds\<close> is \<open>d_opmgr->get_op_kinds()\<close>, in iteration order. The statistics
  counters (\<open>d_stats\<close>) are left out.
\<close>

record 'g SolverManager =
  d_arith_subtyping :: bool
  d_simple_symbols :: bool
  d_solver_options :: "'g SolverOption list"
  d_used_solver_options :: "string set"
  d_term_db :: "'g TermDb"
  d_op_kinds :: "(OpKind \<times> Op) list"
  d_sorts :: SortSet
  d_sort_kind_to_sorts :: "SortKind \<rightharpoonup> SortSet"
  d_n_sorts :: "64 word"
  d_n_symbols :: "64 word"
  d_assumptions :: "Term set"
  d_sat_called :: bool

subsection \<open>\<open>pick_option\<close>\<close>

text \<open>
  The two filter loops of \<open>pick_option\<close>, each leaving at the first hit: an option is
  skipped when one of its conflicts is in \<open>d_used_solver_options\<close>, or when one of its
  dependencies is not.
\<close>

fun has_used_conflict :: "string set \<Rightarrow> string list \<Rightarrow> bool" where
  "has_used_conflict used [] = False"
| "has_used_conflict used (conflict # cs) =
     (if conflict \<in> used then True else has_used_conflict used cs)"

fun has_unused_depend :: "string set \<Rightarrow> string list \<Rightarrow> bool" where
  "has_unused_depend used [] = False"
| "has_unused_depend used (depend # ds) =
     (if depend \<notin> used then True else has_unused_depend used ds)"

text \<open>The outer loop: the vector \<open>available\<close>, in the order of \<open>d_solver_options\<close>.\<close>

fun available_options :: "string set \<Rightarrow> 'g SolverOption list \<Rightarrow> 'g SolverOption list" where
  "available_options used [] = []"
| "available_options used (opt # opts) =
     (if has_used_conflict used (get_conflicts opt) then available_options used opts
      else if has_unused_depend used (get_depends opt) then available_options used opts
      else opt # available_options used opts)"

text \<open>
  \<open>pick_option\<close>. The index is \<open>d_rng.pick<uint32_t>() % available.size()\<close>, computed
  in \<open>size_t\<close>; with an empty \<open>available\<close> the modulus is by zero. The read
  \<open>available[i]\<close> is checked here, so that being in bounds is a theorem and not an
  assumption. The value is drawn after the index.
\<close>

definition pick_option ::
  "'g RNGenerator \<Rightarrow> 'g \<Rightarrow> 'g SolverManager
     \<Rightarrow> error + ((string \<times> string) \<times> 'g \<times> 'g SolverManager)" where
  "pick_option R g s =
     (if d_solver_options s = [] then Inr (([], []), g, s)
      else
        let available = available_options (d_used_solver_options s) (d_solver_options s);
            (r, g1) = pick_uint32 R g
        in if length available = 0 then Inl Division_by_zero
           else
             let i = unat r mod length available
             in if \<not> i < length available then Inl Index_out_of_bounds
                else
                  let opt = available ! i;
                      name = get_name opt;
                      used = (if name \<notin> d_used_solver_options s
                              then insert name (d_used_solver_options s)
                              else d_used_solver_options s);
                      (val, g2) = pick_value opt g1
                  in Inr ((name, val), g2, s\<lparr>d_used_solver_options := used\<rparr>))"

subsection \<open>\<open>clear_assumptions\<close>, \<open>pick_assumption\<close> and \<open>reset_sat\<close>\<close>

definition clear_assumptions :: "'g SolverManager \<Rightarrow> 'g SolverManager" where
  "clear_assumptions s = s\<lparr>d_assumptions := {}\<rparr>"

text \<open>
  \<open>pick_assumption\<close> asserts that a Boolean term exists, picks one at level 0 and
  records it in \<open>d_assumptions\<close>.
\<close>

definition pick_assumption ::
  "'g \<Rightarrow> 'g SolverManager \<Rightarrow> error + (Term \<times> 'g \<times> 'g SolverManager)" where
  "pick_assumption g s =
     (if \<not> has_term (d_term_db s) SORT_BOOL then Inl Assertion_failed
      else
        let (res, g') = pick_term (d_term_db s) SORT_BOOL 0 g
        in Inr (res, g', s\<lparr>d_assumptions := insert res (d_assumptions s)\<rparr>))"

text \<open>
  \<open>reset_sat\<close> of the current revision clears the assumptions only under the guard
  \<open>if (d_sat_called)\<close>.
\<close>

definition reset_sat :: "'g SolverManager \<Rightarrow> 'g SolverManager" where
  "reset_sat s =
     (let s1 = (if d_sat_called s then clear_assumptions s else s)
      in s1\<lparr>d_sat_called := False\<rparr>)"

text \<open>\<open>reset_sat\<close> of the older revision clears them without a guard.\<close>

definition smtmbt_reset_sat :: "'g SolverManager \<Rightarrow> 'g SolverManager" where
  "smtmbt_reset_sat s = (clear_assumptions s)\<lparr>d_sat_called := False\<rparr>"

subsection \<open>\<open>pick_symbol\<close>\<close>

text \<open>
  What \<open>operator<<\<close> writes for an unsigned integer: its decimal digits, most
  significant first.
\<close>

definition digit_char :: "nat \<Rightarrow> char" where
  "digit_char d = ''0123456789'' ! d"

fun dec_digits :: "nat \<Rightarrow> string" where
  "dec_digits n = (if n < 10 then [digit_char n] else dec_digits (n div 10) @ [digit_char (n mod 10)])"

declare dec_digits.simps [simp del]

definition MURXLA_SYMBOL_LEN_MAX :: "32 word" where
  "MURXLA_SYMBOL_LEN_MAX = 128"

text \<open>
  \<open>pick_symbol\<close>. In simple-symbol mode the stream receives \<open>"_x"\<close> and the value of
  \<open>d_n_symbols\<close>, which is then incremented (\<open>d_n_symbols++\<close>). Otherwise a length is
  drawn from \<open>[0, MURXLA_SYMBOL_LEN_MAX]\<close>; \<open>len && d_rng.flip_coin()\<close> evaluates the
  coin only for a length other than zero.
\<close>

definition pick_symbol ::
  "'g RNGenerator \<Rightarrow> 'g \<Rightarrow> 'g SolverManager \<Rightarrow> string \<times> 'g \<times> 'g SolverManager" where
  "pick_symbol R g s =
     (if d_simple_symbols s
      then (''_x'' @ dec_digits (unat (d_n_symbols s)), g, s\<lparr>d_n_symbols := d_n_symbols s + 1\<rparr>)
      else
        let (len, g1) = pick_uint32_range R 0 MURXLA_SYMBOL_LEN_MAX g;
            (piped, g2) = (if len \<noteq> 0 then flip_coin R g1 else (False, g1));
            (sym, g3) = (if piped then pick_piped_symbol R len g2
                         else pick_simple_symbol R len g2)
        in (sym, g3, s))"

text \<open>
  The older revision differs in the prefix (\<open>"_s"\<close>) and in the name of the bound
  (\<open>SMTMBT_LEN_SYMBOL_MAX\<close>, also 128).
\<close>

definition smtmbt_pick_symbol ::
  "'g RNGenerator \<Rightarrow> 'g \<Rightarrow> 'g SolverManager \<Rightarrow> string \<times> 'g \<times> 'g SolverManager" where
  "smtmbt_pick_symbol R g s =
     (if d_simple_symbols s
      then (''_s'' @ dec_digits (unat (d_n_symbols s)), g, s\<lparr>d_n_symbols := d_n_symbols s + 1\<rparr>)
      else
        let (len, g1) = pick_uint32_range R 0 128 g;
            (piped, g2) = (if len \<noteq> 0 then flip_coin R g1 else (False, g1));
            (sym, g3) = (if piped then pick_piped_symbol R len g2
                         else pick_simple_symbol R len g2)
        in (sym, g3, s))"

subsection \<open>\<open>add_sort\<close>\<close>

text \<open>
  \<open>d_sort_kind_to_sorts[sort_kind]\<close>: \<open>operator[]\<close> of the map yields the entry of the
  key, an empty set when the map has none (the entry is then created).
\<close>

definition kind_sorts :: "(SortKind \<rightharpoonup> SortSet) \<Rightarrow> SortKind \<Rightarrow> SortSet" where
  "kind_sorts m sort_kind = (case m sort_kind of None \<Rightarrow> [] | Some sorts \<Rightarrow> sorts)"

text \<open>The assertions of \<open>add_sort\<close> on the kind of the sort and the kind it is added as.\<close>

definition int_kind_ok :: "Sort \<Rightarrow> SortKind \<Rightarrow> bool" where
  "int_kind_ok srt sort_kind \<longleftrightarrow>
     (sort_kind \<noteq> SORT_INT \<and> get_kind srt \<noteq> SORT_INT) \<or> is_int srt"

definition kind_ok :: "bool \<Rightarrow> Sort \<Rightarrow> SortKind \<Rightarrow> bool" where
  "kind_ok arith_subtyping srt sort_kind \<longleftrightarrow>
     (arith_subtyping \<and> sort_kind = SORT_REAL \<and> get_kind srt = SORT_INT)
     \<or> (arith_subtyping \<and> sort_kind = SORT_INT \<and> get_kind srt = SORT_REAL)
     \<or> (sort_kind = SORT_BOOL \<and> get_kind srt = SORT_BV \<and> get_bv_size srt = 1)
     \<or> (sort_kind = SORT_BV \<and> get_kind srt = SORT_BOOL)
     \<or> get_kind srt = sort_kind"

definition kind_ok_found :: "bool \<Rightarrow> Sort \<Rightarrow> SortKind \<Rightarrow> bool" where
  "kind_ok_found arith_subtyping srt sort_kind \<longleftrightarrow>
     (arith_subtyping \<and> sort_kind = SORT_REAL \<and> get_kind srt = SORT_INT)
     \<or> (arith_subtyping \<and> sort_kind = SORT_INT \<and> get_kind srt = SORT_REAL)
     \<or> (sort_kind = SORT_BOOL \<and> get_kind srt = SORT_BV \<and> get_bv_size srt = 1)
     \<or> (sort_kind = SORT_BV \<and> get_kind srt = SORT_BOOL)
     \<or> (sort_kind = SORT_ARRAY \<and> get_kind srt = SORT_FUN \<and> get_sorts_size srt = 2)
     \<or> (sort_kind = SORT_FUN \<and> get_kind srt = SORT_ARRAY \<and> get_sorts_size srt = 2)
     \<or> get_kind srt = sort_kind"

text \<open>
  The end of \<open>add_sort\<close> in the current revision: two assertions, then the sort enters
  the set of its kind when \<open>sorts.find(sort) == sorts.end()\<close>.
\<close>

definition add_sort_to_kind ::
  "Sort \<Rightarrow> SortKind \<Rightarrow> 'g SolverManager \<Rightarrow> error + (Sort \<times> 'g SolverManager)" where
  "add_sort_to_kind srt sort_kind s =
     (if get_id srt = 0 then Inl Assertion_failed
      else if \<not> (sort_kind \<noteq> SORT_ARRAY \<or> get_sorts_size srt \<noteq> 0) then Inl Assertion_failed
      else
        let sorts = kind_sorts (d_sort_kind_to_sorts s) sort_kind;
            sorts' = (if sortset_find srt sorts = None then sortset_insert srt sorts else sorts)
        in Inr (srt, s\<lparr>d_sort_kind_to_sorts := (d_sort_kind_to_sorts s)(sort_kind \<mapsto> sorts')\<rparr>))"

text \<open>
  \<open>add_sort\<close> of the current revision. The parameter \<open>sort\<close> is a reference: the sort the
  function leaves in it (the one stored in the database) is returned with the state.
\<close>

definition add_sort ::
  "Sort \<Rightarrow> SortKind \<Rightarrow> 'g SolverManager \<Rightarrow> error + (Sort \<times> 'g SolverManager)" where
  "add_sort srt sort_kind s =
     (if sort_kind = SORT_ANY then Inl Assertion_failed
      else if get_kind srt = SORT_ANY \<and> get_id srt \<noteq> 0 then Inl Assertion_failed
      else
        let srt1 = (if get_kind srt = SORT_ANY then srt\<lparr>get_kind := sort_kind\<rparr> else srt)
        in if \<not> int_kind_ok srt1 sort_kind then Inl Assertion_failed
           else if \<not> kind_ok (d_arith_subtyping s) srt1 sort_kind then Inl Assertion_failed
           else
             (case sortset_find srt1 (d_sorts s) of
                None \<Rightarrow>
                  let n = d_n_sorts s + 1;
                      srt2 = srt1\<lparr>get_id := n\<rparr>
                  in add_sort_to_kind srt2 sort_kind
                       (s\<lparr>d_n_sorts := n, d_sorts := sortset_insert srt2 (d_sorts s)\<rparr>)
              | Some it \<Rightarrow>
                  if \<not> int_kind_ok it sort_kind then Inl Assertion_failed
                  else if \<not> kind_ok_found (d_arith_subtyping s) it sort_kind
                  then Inl Assertion_failed
                  else add_sort_to_kind it sort_kind s))"

text \<open>
  \<open>add_sort\<close> of the older revision. Its last statement inserts under the guard
  \<open>if (sorts.find(sort) != sorts.end())\<close>: only a sort that the set already holds.
\<close>

definition smtmbt_add_sort_to_kind ::
  "Sort \<Rightarrow> SortKind \<Rightarrow> 'g SolverManager \<Rightarrow> error + (Sort \<times> 'g SolverManager)" where
  "smtmbt_add_sort_to_kind srt sort_kind s =
     (if \<not> (sort_kind \<noteq> SORT_ARRAY \<or> get_sorts_size srt \<noteq> 0) then Inl Assertion_failed
      else
        let sorts = kind_sorts (d_sort_kind_to_sorts s) sort_kind;
            sorts' = (if sortset_find srt sorts \<noteq> None then sortset_insert srt sorts else sorts)
        in Inr (srt, s\<lparr>d_sort_kind_to_sorts := (d_sort_kind_to_sorts s)(sort_kind \<mapsto> sorts')\<rparr>))"

definition smtmbt_add_sort ::
  "Sort \<Rightarrow> SortKind \<Rightarrow> 'g SolverManager \<Rightarrow> error + (Sort \<times> 'g SolverManager)" where
  "smtmbt_add_sort srt sort_kind s =
     (if sort_kind = SORT_ANY then Inl Assertion_failed
      else
        let srt1 = (if get_kind srt = SORT_ANY then srt\<lparr>get_kind := sort_kind\<rparr> else srt)
        in (case sortset_find srt1 (d_sorts s) of
              None \<Rightarrow>
                let n = d_n_sorts s + 1;
                    srt2 = srt1\<lparr>get_kind := sort_kind, get_id := n\<rparr>
                in smtmbt_add_sort_to_kind srt2 sort_kind
                     (s\<lparr>d_n_sorts := n, d_sorts := sortset_insert srt2 (d_sorts s)\<rparr>)
            | Some it \<Rightarrow>
                if get_kind it \<noteq> sort_kind then Inl Assertion_failed
                else smtmbt_add_sort_to_kind it sort_kind s))"

text \<open>A sequence of \<open>add_sort\<close> calls, stopping at the first failed assertion.\<close>

fun add_sorts :: "(Sort \<times> SortKind) list \<Rightarrow> 'g SolverManager \<Rightarrow> error + 'g SolverManager" where
  "add_sorts [] s = Inr s"
| "add_sorts ((srt, sort_kind) # calls) s =
     (case add_sort srt sort_kind s of
        Inl e \<Rightarrow> Inl e
      | Inr (_, s') \<Rightarrow> add_sorts calls s')"

fun smtmbt_add_sorts ::
  "(Sort \<times> SortKind) list \<Rightarrow> 'g SolverManager \<Rightarrow> error + 'g SolverManager" where
  "smtmbt_add_sorts [] s = Inr s"
| "smtmbt_add_sorts ((srt, sort_kind) # calls) s =
     (case smtmbt_add_sort srt sort_kind s of
        Inl e \<Rightarrow> Inl e
      | Inr (_, s') \<Rightarrow> smtmbt_add_sorts calls s')"

subsection \<open>\<open>pick_op_kind\<close>\<close>

text \<open>
  The check of \<open>pick_op_kind\<close> that terms exist for an operator: for a negative arity
  only the sort kind of argument 0 is looked up; otherwise the loop over the positions
  below the arity leaves at the first sort kind without a term.
\<close>

definition op_has_terms :: "'g TermDb \<Rightarrow> Op \<Rightarrow> bool" where
  "op_has_terms db op =
     (if d_arity op < 0 then has_term db (get_arg_sort_kind op 0)
      else list_all (\<lambda>i. has_term db (get_arg_sort_kind op i)) [0..<nat (d_arity op)])"

text \<open>
  The order in which an unordered container (\<open>std::unordered_map\<close>,
  \<open>std::unordered_set\<close>) is iterated is the library's, and \<open>pick_from_map\<close> and
  \<open>pick_from_set\<close> pick by position in that order. The order is a parameter: for the
  map \<open>kinds\<close> and for its sets of operator kinds, a function from the keys (the
  elements) in the order in which they were inserted to the same keys (elements) in
  the order of iteration. \<open>iteration_order\<close> says that a function is such an order: it
  only rearranges.
\<close>

record Unordered =
  theory_order :: "TheoryId list \<Rightarrow> TheoryId list"
  op_kind_order :: "OpKind list \<Rightarrow> OpKind list"

definition iteration_order :: "('a list \<Rightarrow> 'a list) \<Rightarrow> bool" where
  "iteration_order f \<longleftrightarrow> (\<forall>xs. distinct xs \<longrightarrow> distinct (f xs) \<and> set (f xs) = set xs)"

text \<open>
  \<open>kinds\<close> is an unordered map from theories to sets of operator kinds, held as the
  list of its entries in the order of their insertion, each set as the list of its
  elements in the order of their insertion. \<open>kinds[theory].insert(kind)\<close> creates the
  entry when the map has none.
\<close>

type_synonym OpKindsByTheory = "(TheoryId \<times> OpKind list) list"

fun kinds_insert :: "TheoryId \<Rightarrow> OpKind \<Rightarrow> OpKindsByTheory \<Rightarrow> OpKindsByTheory" where
  "kinds_insert theory kind [] = [(theory, [kind])]"
| "kinds_insert theory kind ((t, ks) # m) =
     (if t = theory then (t, if kind \<in> set ks then ks else ks @ [kind]) # m
      else (t, ks) # kinds_insert theory kind m)"

definition kinds_at :: "OpKindsByTheory \<Rightarrow> TheoryId \<Rightarrow> OpKind list" where
  "kinds_at m theory = (case map_of m theory of None \<Rightarrow> [] | Some ks \<Rightarrow> ks)"

text \<open>
  The loop over the operators: a quantifier is passed over (\<open>continue\<close>) unless a
  variable and a quantifier body exist; an operator with terms enters \<open>kinds\<close>.
\<close>

fun collect_kinds :: "'g TermDb \<Rightarrow> (OpKind \<times> Op) list \<Rightarrow> OpKindsByTheory \<Rightarrow> OpKindsByTheory" where
  "collect_kinds db [] kinds = kinds"
| "collect_kinds db (p # ps) kinds =
     (let op = snd p
      in if (d_kind op = OP_FORALL \<or> d_kind op = OP_EXISTS)
            \<and> (\<not> has_var db \<or> \<not> has_quant_body db)
         then collect_kinds db ps kinds
         else if op_has_terms db op
         then collect_kinds db ps (kinds_insert (d_theory op) (d_kind op) kinds)
         else collect_kinds db ps kinds)"

text \<open>The entries of \<open>kinds\<close>, and the elements of one of its sets, as they are iterated.\<close>

definition kinds_entries :: "Unordered \<Rightarrow> OpKindsByTheory \<Rightarrow> OpKindsByTheory" where
  "kinds_entries U kinds = map (\<lambda>t. (t, kinds_at kinds t)) (theory_order U (map fst kinds))"

definition kinds_elements :: "Unordered \<Rightarrow> OpKindsByTheory \<Rightarrow> TheoryId \<Rightarrow> OpKind list" where
  "kinds_elements U kinds theory = op_kind_order U (kinds_at kinds theory)"

definition pick_op_kind ::
  "Unordered \<Rightarrow> 'g RNGenerator \<Rightarrow> bool \<Rightarrow> 'g \<Rightarrow> 'g SolverManager
     \<Rightarrow> error + (OpKind \<times> 'g)" where
  "pick_op_kind U R with_terms g s =
     (if with_terms
      then
        let kinds = collect_kinds (d_term_db s) (d_op_kinds s) []
        in if length kinds > 0
           then
             (case pick_from_map R (kinds_entries U kinds) g of
                Inl e \<Rightarrow> Inl e
              | Inr (theory, g1) \<Rightarrow> pick_from_set R (kinds_elements U kinds theory) g1)
           else Inr (OP_UNDEFINED, g)
      else pick_from_map R (d_op_kinds s) g)"

subsection \<open>A manager to start from\<close>

text \<open>
  The manager after construction. The constructor's initialiser list gives
  \<open>d_arith_subtyping\<close>, \<open>d_simple_symbols\<close>, \<open>d_solver_options\<close> and the empty
  \<open>d_used_solver_options\<close>; the containers start empty; the counters and \<open>d_sat_called\<close>
  start with the values that \<open>reset()\<close> gives them (their in-class initialisers are in
  solver_manager.hpp).
\<close>

definition new_SolverManager ::
  "'g SolverOption list \<Rightarrow> bool \<Rightarrow> bool \<Rightarrow> 'g TermDb \<Rightarrow> (OpKind \<times> Op) list
     \<Rightarrow> 'g SolverManager" where
  "new_SolverManager options arith_subtyping simple_symbols term_db op_kinds =
     \<lparr> d_arith_subtyping = arith_subtyping,
       d_simple_symbols = simple_symbols,
       d_solver_options = options,
       d_used_solver_options = {},
       d_term_db = term_db,
       d_op_kinds = op_kinds,
       d_sorts = [],
       d_sort_kind_to_sorts = Map.empty,
       d_n_sorts = 0,
       d_n_symbols = 0,
       d_assumptions = {},
       d_sat_called = False \<rparr>"

section \<open>The command line (main.cpp)\<close>

subsection \<open>Options\<close>

text \<open>
  \<open>Options\<close> (options.hpp), and the two members that main.cpp writes and the header
  among the sources does not declare yet (\<open>solver_profile_filename\<close>,
  \<open>fuzz_options_filter\<close>). \<open>time\<close> is a \<open>double\<close>; it holds what \<open>std::atof\<close> returns and
  nothing computes with it, so it is held as a rational number.
\<close>

record Options =
  seed :: "32 word"
  verbosity :: "32 word"
  time :: rat
  max_runs :: "32 word"
  is_seeded :: bool
  trace_seeds :: bool
  simple_symbols :: bool
  smt :: bool
  print_stats :: bool
  print_fsm :: bool
  arith_linear :: bool
  fuzz_options :: bool
  tmp_dir :: string
  out_dir :: string
  solver :: string
  solver_binary :: string
  api_trace_file_name :: string
  untrace_file_name :: string
  smt2_file_name :: string
  dd :: bool
  dd_ignore_out :: bool
  dd_ignore_err :: bool
  dd_match_out :: string
  dd_match_err :: string
  dd_trace_file_name :: string
  cross_check :: string
  check_solver_name :: string
  check_solver :: bool
  solver_options :: "(string \<times> string) list"
  enabled_theories :: "TheoryId list"
  disabled_theories :: "TheoryId set"
  cmd_line_trace :: string
  solver_profile_filename :: string
  fuzz_options_filter :: string

definition SOLVER_BTOR :: string where "SOLVER_BTOR = ''btor''"
definition SOLVER_BZLA :: string where "SOLVER_BZLA = ''bzla''"
definition SOLVER_CVC5 :: string where "SOLVER_CVC5 = ''cvc5''"
definition SOLVER_SMT2 :: string where "SOLVER_SMT2 = ''smt2''"
definition SOLVER_YICES :: string where "SOLVER_YICES = ''yices''"

text \<open>The member initialisers of \<open>Options\<close>; a string without one is empty.\<close>

definition default_Options :: Options where
  "default_Options =
     \<lparr> seed = 0, verbosity = 0, time = 0, max_runs = 0,
       is_seeded = False, trace_seeds = False, simple_symbols = True, smt = False,
       print_stats = False, print_fsm = False, arith_linear = False, fuzz_options = False,
       tmp_dir = ''/tmp'', out_dir = [],
       solver = [], solver_binary = [], api_trace_file_name = [],
       untrace_file_name = [], smt2_file_name = [],
       dd = False, dd_ignore_out = False, dd_ignore_err = False,
       dd_match_out = [], dd_match_err = [], dd_trace_file_name = [],
       cross_check = [], check_solver_name = [], check_solver = False,
       solver_options = [], enabled_theories = [],
       disabled_theories = {THEORY_BAG, THEORY_SEQ, THEORY_SET},
       cmd_line_trace = [],
       solver_profile_filename = [], fuzz_options_filter = [] \<rparr>"

text \<open>The globals of main.cpp that \<open>parse_options\<close> writes.\<close>

record Globals =
  g_errors_print_csv :: bool
  g_export_errors :: string

definition default_Globals :: Globals where
  "default_Globals = \<lparr> g_errors_print_csv = False, g_export_errors = [] \<rparr>"

subsection \<open>What the process is given\<close>

text \<open>
  What main.cpp takes from outside itself, as parameters: the build configuration (the
  \<open>MURXLA_USE_...\<close> macros), the constant \<open>MURXLA_CHECK_SOLVER_OPT_PREFIX\<close> and the
  function \<open>split\<close> (util.hpp, not among the sources), the conversions of the C and C++
  libraries (\<open>std::atof\<close>, \<open>std::stoi\<close>, which throws for a text that is no number, and
  the two stream extractions of the seed), and the file system: whether a path is a
  directory, the first line of a file that can be opened (\<open>None\<close> when the stream is not
  good), whether the shared-memory file of the statistics can be opened and closed, and
  the temporary directory that \<open>create_tmp_directory\<close> leaves for a base directory
  (\<open>None\<close> when the file system call throws).
\<close>

record Env =
  use_boolector :: bool
  use_bitwuzla :: bool
  use_cvc5 :: bool
  use_yices :: bool
  check_solver_opt_prefix :: string
  split :: "string \<Rightarrow> char \<Rightarrow> string list"
  atof :: "string \<Rightarrow> rat"
  stoi :: "string \<Rightarrow> int option"
  read_seed_hex :: "string \<Rightarrow> 32 word"
  read_seed_dec :: "string \<Rightarrow> 32 word"
  path_is_dir :: "string \<Rightarrow> bool"
  first_line :: "string \<Rightarrow> string option"
  shm_open_ok :: bool
  shm_close_ok :: bool
  create_tmp_directory :: "string \<Rightarrow> string option"

subsection \<open>Leaving with an error\<close>

text \<open>
  \<open>ExitStream\<close> (except.cpp): the constructor writes \<open>"murxla: ERROR: "\<close> to the standard
  error stream and keeps the exit code; the destructor ends the line, flushes and
  calls \<open>std::exit\<close> with the code.

  Modelled from the spec: the macros \<open>MURXLA_EXIT_ERROR\<close> and
  \<open>MURXLA_EXIT_ERROR_CONFIG\<close> (except.hpp is not among the sources). When the condition
  holds, the message is streamed into an \<open>ExitStream\<close> made with the exit code
  \<open>EXIT_ERROR\<close>, and \<open>EXIT_ERROR_CONFIG\<close> for the second macro (the spec: a distinct
  nonzero exit code for a configuration error and for an engine error).
\<close>

definition ExitStream :: "ExitCode \<Rightarrow> string \<Rightarrow> error" where
  "ExitStream exit_code msg = Exit exit_code (''murxla: ERROR: '' @ msg @ [CHR 0x0A])"

definition MURXLA_EXIT_ERROR :: "string \<Rightarrow> error" where
  "MURXLA_EXIT_ERROR msg = ExitStream EXIT_ERROR msg"

definition MURXLA_EXIT_ERROR_CONFIG :: "string \<Rightarrow> error" where
  "MURXLA_EXIT_ERROR_CONFIG msg = ExitStream EXIT_ERROR_CONFIG msg"

subsection \<open>\<open>get_options\<close>\<close>

text \<open>
  The loops of main.cpp run an index over a vector; here they run over the rest of the
  vector from the index on. \<open>i += 1; check_next_arg(arg, i, size); ... args[i]\<close> is
  \<open>next_arg\<close>: the argument that follows, or the exit of \<open>check_next_arg\<close>.
\<close>

definition check_next_arg :: "string \<Rightarrow> error" where
  "check_next_arg option_name =
     MURXLA_EXIT_ERROR (''missing argument to option '' @ [CHR 0x27] @ option_name @ [CHR 0x27])"

definition next_arg :: "string \<Rightarrow> string list \<Rightarrow> error + string" where
  "next_arg arg rest = (case rest of [] \<Rightarrow> Inl (check_next_arg arg) | a # _ \<Rightarrow> Inr a)"

text \<open>
  The first loop of \<open>get_options\<close>, over \<open>argv[1..]\<close>: \<open>-u\<close> and \<open>--untrace\<close> are taken
  out with the file name that follows, every other argument is appended to \<open>args\<close>. The
  option named in the message of a missing file name is \<open>args.back()\<close>; the reference
  is read only when the message is written, and with an empty \<open>args\<close> that read is
  past the vector.
\<close>

fun get_options_loop ::
  "string list \<Rightarrow> Options \<Rightarrow> string list \<Rightarrow> error + (Options \<times> string list)" where
  "get_options_loop [] options args = Inr (options, args)"
| "get_options_loop (arg # rest) options args =
     (if arg = ''-u'' \<or> arg = ''--untrace''
      then (case rest of
              [] \<Rightarrow> if args = [] then Inl Index_out_of_bounds
                     else Inl (check_next_arg (last args))
            | file # rest' \<Rightarrow>
                get_options_loop rest' (options\<lparr>untrace_file_name := file\<rparr>) args)
      else get_options_loop rest options (args @ [arg]))"

text \<open>
  \<open>get_options\<close>: after the loop, when a trace file was named and can be opened, its
  first line is read; if it starts with \<open>set-murxla-options\<close>
  (\<open>line.rfind("set-murxla-options", 0) == 0\<close>), the line is split at blanks and
  everything after the first token is inserted at the front of \<open>args\<close>
  (\<open>opts.begin() + 1\<close> is past the end for an empty \<open>opts\<close>).
\<close>

definition get_options :: "Env \<Rightarrow> Options \<Rightarrow> string list \<Rightarrow> error + (Options \<times> string list)" where
  "get_options E options argv =
     (case get_options_loop (drop 1 argv) options [] of
        Inl e \<Rightarrow> Inl e
      | Inr (options1, args) \<Rightarrow>
          if untrace_file_name options1 \<noteq> []
          then (case first_line E (untrace_file_name options1) of
                  None \<Rightarrow> Inr (options1, args)
                | Some line \<Rightarrow>
                    if prefix ''set-murxla-options'' line
                    then (let opts = split E line CHR '' ''
                          in if opts = [] then Inl Index_out_of_bounds
                             else Inr (options1, drop 1 opts @ args))
                    else Inr (options1, args))
          else Inr (options1, args))"

subsection \<open>\<open>parse_options\<close>: one argument\<close>

definition with_next_arg :: "string \<Rightarrow> string list \<Rightarrow> (string \<Rightarrow> error + 'a) \<Rightarrow> error + 'a" where
  "with_next_arg arg rest f = (case next_arg arg rest of Inl e \<Rightarrow> Inl e | Inr a \<Rightarrow> f a)"

text \<open>
  \<open>check_solver\<close> (the function; the member of \<open>Options\<close> has the name): the exit for a
  solver that the build does not include, if any.
\<close>

definition check_solver_kind :: "Env \<Rightarrow> string \<Rightarrow> error option" where
  "check_solver_kind E solver_kind =
     (if solver_kind = SOLVER_BTOR
      then (if \<not> use_boolector E then Some (MURXLA_EXIT_ERROR ''Boolector not configured'')
            else None)
      else if solver_kind = SOLVER_BZLA
      then (if \<not> use_bitwuzla E then Some (MURXLA_EXIT_ERROR ''Bitwuzla not configured'')
            else None)
      else if solver_kind = SOLVER_CVC5
      then (if \<not> use_cvc5 E then Some (MURXLA_EXIT_ERROR ''cvc5 not configured'') else None)
      else if solver_kind = SOLVER_YICES
      then (if \<not> use_yices E then Some (MURXLA_EXIT_ERROR ''Yices not configured'') else None)
      else None)"

definition is_valid_solver_str :: "string \<Rightarrow> bool" where
  "is_valid_solver_str name \<longleftrightarrow>
     name = SOLVER_BTOR \<or> name = SOLVER_BZLA \<or> name = SOLVER_CVC5 \<or> name = SOLVER_YICES"

definition isxdigit :: "char \<Rightarrow> bool" where
  "isxdigit c \<longleftrightarrow> c \<in> set ''0123456789abcdefABCDEF''"

text \<open>
  \<open>args[i + 1][0] != '-'\<close>: the first character of a string, the terminating zero for
  an empty one.
\<close>

definition first_not_dash :: "string \<Rightarrow> bool" where
  "first_not_dash a = (case a of [] \<Rightarrow> True | c # _ \<Rightarrow> c \<noteq> CHR ''-'')"

text \<open>The loop of \<open>-o\<close> and \<open>--cross-check-opts\<close> over the options \<open>name=value\<close>.\<close>

fun add_solver_options ::
  "Env \<Rightarrow> string \<Rightarrow> string list \<Rightarrow> (string \<times> string) list
     \<Rightarrow> error + (string \<times> string) list" where
  "add_solver_options E pre [] acc = Inr acc"
| "add_solver_options E pre (opt # opts) acc =
     (let split_opt = split E opt CHR ''=''
      in if split_opt = [] then add_solver_options E pre opts acc
         else if length split_opt \<noteq> 2
         then Inl (MURXLA_EXIT_ERROR
                     (''invalid solver option format: '' @ [CHR 0x27] @ opt @ [CHR 0x27]
                      @ '', expected '' @ [CHR 0x27] @ ''name=value'' @ [CHR 0x27]))
         else add_solver_options E pre opts (acc @ [(pre @ split_opt ! 0, split_opt ! 1)]))"

text \<open>
  The end of the chain of \<open>else if\<close>: the theory switches, \<open>--linear\<close> among them, and
  the exit for an unknown option. None of them takes an argument.
\<close>

definition parse_theory_arg :: "string \<Rightarrow> Options \<Rightarrow> error + Options" where
  "parse_theory_arg arg options =
     (if arg = ''--arrays''
      then Inr (options\<lparr>enabled_theories := enabled_theories options @ [THEORY_ARRAY]\<rparr>)
      else if arg = ''--bags''
      then Inr (options\<lparr>enabled_theories := enabled_theories options @ [THEORY_BAG]\<rparr>)
      else if arg = ''--bv''
      then Inr (options\<lparr>enabled_theories := enabled_theories options @ [THEORY_BV]\<rparr>)
      else if arg = ''--dt''
      then Inr (options\<lparr>enabled_theories := enabled_theories options @ [THEORY_DT]\<rparr>)
      else if arg = ''--fp''
      then Inr (options\<lparr>enabled_theories := enabled_theories options @ [THEORY_FP]\<rparr>)
      else if arg = ''--ints''
      then Inr (options\<lparr>enabled_theories := enabled_theories options @ [THEORY_INT]\<rparr>)
      else if arg = ''--quant''
      then Inr (options\<lparr>enabled_theories := enabled_theories options @ [THEORY_QUANT]\<rparr>)
      else if arg = ''--reals''
      then Inr (options\<lparr>enabled_theories := enabled_theories options @ [THEORY_REAL]\<rparr>)
      else if arg = ''--trans''
      then Inr (options\<lparr>enabled_theories :=
                          enabled_theories options @ [THEORY_TRANSCENDENTAL]\<rparr>)
      else if arg = ''--linear''
      then Inr (options\<lparr>arith_linear := True\<rparr>)
      else if arg = ''--seq''
      then Inr (options\<lparr>enabled_theories := enabled_theories options @ [THEORY_SEQ]\<rparr>)
      else if arg = ''--sets''
      then Inr (options\<lparr>enabled_theories := enabled_theories options @ [THEORY_SET]\<rparr>)
      else if arg = ''--strings''
      then Inr (options\<lparr>enabled_theories := enabled_theories options @ [THEORY_STRING]\<rparr>)
      else if arg = ''--uf''
      then Inr (options\<lparr>enabled_theories := enabled_theories options @ [THEORY_UF]\<rparr>)
      else if arg = ''--no-arrays''
      then Inr (options\<lparr>disabled_theories := insert THEORY_ARRAY (disabled_theories options)\<rparr>)
      else if arg = ''--no-bv''
      then Inr (options\<lparr>disabled_theories := insert THEORY_BV (disabled_theories options)\<rparr>)
      else if arg = ''--no-bags''
      then Inr (options\<lparr>disabled_theories := insert THEORY_BAG (disabled_theories options)\<rparr>)
      else if arg = ''--no-dt''
      then Inr (options\<lparr>disabled_theories := insert THEORY_DT (disabled_theories options)\<rparr>)
      else if arg = ''--no-fp''
      then Inr (options\<lparr>disabled_theories := insert THEORY_FP (disabled_theories options)\<rparr>)
      else if arg = ''--no-ints''
      then Inr (options\<lparr>disabled_theories := insert THEORY_INT (disabled_theories options)\<rparr>)
      else if arg = ''--no-quant''
      then Inr (options\<lparr>disabled_theories := insert THEORY_QUANT (disabled_theories options)\<rparr>)
      else if arg = ''--no-reals''
      then Inr (options\<lparr>disabled_theories := insert THEORY_REAL (disabled_theories options)\<rparr>)
      else if arg = ''--no-seq''
      then Inr (options\<lparr>disabled_theories := insert THEORY_SEQ (disabled_theories options)\<rparr>)
      else if arg = ''--no-sets''
      then Inr (options\<lparr>disabled_theories := insert THEORY_SET (disabled_theories options)\<rparr>)
      else if arg = ''--no-strings''
      then Inr (options\<lparr>disabled_theories := insert THEORY_STRING (disabled_theories options)\<rparr>)
      else if arg = ''--no-trans''
      then Inr (options\<lparr>disabled_theories :=
                          insert THEORY_TRANSCENDENTAL (disabled_theories options)\<rparr>)
      else if arg = ''--no-uf''
      then Inr (options\<lparr>disabled_theories := insert THEORY_UF (disabled_theories options)\<rparr>)
      else Inl (MURXLA_EXIT_ERROR (''unknown option '' @ [CHR 0x27] @ arg @ [CHR 0x27])))"

text \<open>
  One turn of the loop of \<open>parse_options\<close>, for the argument \<open>arg\<close> and the arguments
  \<open>rest\<close> after it: the number of arguments taken from \<open>rest\<close> (what the turn adds to
  \<open>i\<close>) with the new options and globals, or the way the process ends. \<open>-h\<close> prints
  the usage and exits with status 0. \<open>--check\<close> reads \<open>args[i + 1]\<close> under the guard
  \<open>size > i\<close>, which always holds: as the last argument it reads past the vector.
\<close>

definition parse_arg ::
  "Env \<Rightarrow> string \<Rightarrow> string list \<Rightarrow> Options \<times> Globals
     \<Rightarrow> error + (nat \<times> Options \<times> Globals)" where
  "parse_arg E arg rest og =
     (let options = fst og; g = snd og
      in
      if arg = ''-h'' \<or> arg = ''--help'' then Inl Usage_exit
      else if arg = ''-s'' \<or> arg = ''--seed''
      then with_next_arg arg rest (\<lambda>a.
             if CHR ''-'' \<in> set a
             then Inl (MURXLA_EXIT_ERROR
                         (''invalid argument to option '' @ [CHR 0x27] @ arg @ [CHR 0x27]
                          @ '': '' @ a))
             else Inr (1, options\<lparr>seed := (if list_all isxdigit a then read_seed_hex E a
                                                else read_seed_dec E a),
                                      is_seeded := True\<rparr>, g))
      else if arg = ''-t'' \<or> arg = ''--time''
      then with_next_arg arg rest (\<lambda>a. Inr (1, options\<lparr>time := atof E a\<rparr>, g))
      else if arg = ''-v'' \<or> arg = ''--verbosity''
      then Inr (0, options\<lparr>verbosity := verbosity options + 1\<rparr>, g)
      else if arg = ''-p'' \<or> arg = ''--profile''
      then with_next_arg arg rest (\<lambda>a. Inr (1, options\<lparr>solver_profile_filename := a\<rparr>, g))
      else if arg = ''-a'' \<or> arg = ''--api-trace''
      then with_next_arg arg rest (\<lambda>a. Inr (1, options\<lparr>api_trace_file_name := a\<rparr>, g))
      else if arg = ''-d'' \<or> arg = ''--dd''
      then Inr (0, options\<lparr>dd := True\<rparr>, g)
      else if arg = ''--dd-match-out''
      then with_next_arg arg rest (\<lambda>a. Inr (1, options\<lparr>dd_match_out := a\<rparr>, g))
      else if arg = ''--dd-match-err''
      then with_next_arg arg rest (\<lambda>a. Inr (1, options\<lparr>dd_match_err := a\<rparr>, g))
      else if arg = ''--dd-ignore-out''
      then Inr (0, options\<lparr>dd_ignore_out := True\<rparr>, g)
      else if arg = ''--dd-ignore-err''
      then Inr (0, options\<lparr>dd_ignore_err := True\<rparr>, g)
      else if arg = ''-D'' \<or> arg = ''--dd-trace''
      then with_next_arg arg rest (\<lambda>a. Inr (1, options\<lparr>dd_trace_file_name := a\<rparr>, g))
      else if arg = ''-u'' \<or> arg = ''--untrace''
      then with_next_arg arg rest (\<lambda>a. Inr (1, options\<lparr>untrace_file_name := a\<rparr>, g))
      else if arg = ''-c'' \<or> arg = ''--cross-check''
      then with_next_arg arg rest (\<lambda>a.
             if \<not> is_valid_solver_str a
             then Inl (MURXLA_EXIT_ERROR
                         (''invalid argument '' @ a @ '' to option '' @ [CHR 0x27] @ arg
                          @ [CHR 0x27]))
             else (case check_solver_kind E a of
                     Some e \<Rightarrow> Inl e
                   | None \<Rightarrow> Inr (1, options\<lparr>cross_check := a\<rparr>, g)))
      else if arg = ''--check''
      then (case rest of
              [] \<Rightarrow> Inl Index_out_of_bounds
            | a # _ \<Rightarrow>
                if is_valid_solver_str a
                then Inr (1, options\<lparr>check_solver := True, check_solver_name := a\<rparr>, g)
                else Inr (0, options\<lparr>check_solver := True\<rparr>, g))
      else if arg = ''--no-check''
      then Inr (0, options\<lparr>check_solver := False\<rparr>, g)
      else if arg = ''-y'' \<or> arg = ''--random-symbols''
      then Inr (0, options\<lparr>simple_symbols := False\<rparr>, g)
      else if arg = ''-T'' \<or> arg = ''--tmp-dir''
      then with_next_arg arg rest (\<lambda>a.
             if \<not> path_is_dir E a
             then Inl (MURXLA_EXIT_ERROR
                         (''given path is not a directory '' @ [CHR 0x27] @ a @ [CHR 0x27]))
             else Inr (1, options\<lparr>tmp_dir := a\<rparr>, g))
      else if arg = ''-O'' \<or> arg = ''--out-dir''
      then with_next_arg arg rest (\<lambda>a.
             if \<not> path_is_dir E a
             then Inl (MURXLA_EXIT_ERROR
                         (''given path is not a directory '' @ [CHR 0x27] @ a @ [CHR 0x27]))
             else Inr (1, options\<lparr>out_dir := a\<rparr>, g))
      else if arg = ''--btor''
      then (case check_solver_kind E SOLVER_BTOR of
              Some e \<Rightarrow> Inl e
            | None \<Rightarrow> Inr (0, options\<lparr>solver := SOLVER_BTOR\<rparr>, g))
      else if arg = ''--bzla''
      then (case check_solver_kind E SOLVER_BZLA of
              Some e \<Rightarrow> Inl e
            | None \<Rightarrow> Inr (0, options\<lparr>solver := SOLVER_BZLA\<rparr>, g))
      else if arg = ''--cvc5''
      then (case check_solver_kind E SOLVER_CVC5 of
              Some e \<Rightarrow> Inl e
            | None \<Rightarrow> Inr (0, options\<lparr>solver := SOLVER_CVC5\<rparr>, g))
      else if arg = ''--yices''
      then (case check_solver_kind E SOLVER_YICES of
              Some e \<Rightarrow> Inl e
            | None \<Rightarrow> Inr (0, options\<lparr>solver := SOLVER_YICES\<rparr>, g))
      else if arg = ''--smt2''
      then (if rest \<noteq> [] \<and> first_not_dash (hd rest)
            then (if solver options \<noteq> []
                  then Inl (MURXLA_EXIT_ERROR ''multiple solvers defined'')
                  else Inr (1, options\<lparr>solver_binary := hd rest, solver := SOLVER_SMT2\<rparr>, g))
            else Inr (0, options\<lparr>solver := SOLVER_SMT2\<rparr>, g))
      else if arg = ''-f'' \<or> arg = ''--smt2-file''
      then with_next_arg arg rest (\<lambda>a. Inr (1, options\<lparr>smt2_file_name := a\<rparr>, g))
      else if arg = ''-o'' \<or> arg = ''--cross-check-opts''
      then with_next_arg arg rest (\<lambda>a.
             let pre = (if arg = ''--cross-check-opts'' then check_solver_opt_prefix E else [])
             in (case add_solver_options E pre (split E a CHR '','') (solver_options options) of
                   Inl e \<Rightarrow> Inl e
                 | Inr sos \<Rightarrow> Inr (1, options\<lparr>solver_options := sos\<rparr>, g)))
      else if arg = ''-S'' \<or> arg = ''--trace-seeds''
      then Inr (0, options\<lparr>trace_seeds := True\<rparr>, g)
      else if arg = ''--stats''
      then Inr (0, options\<lparr>print_stats := True\<rparr>, g)
      else if arg = ''--print-fsm''
      then Inr (0, options\<lparr>print_fsm := True\<rparr>, g)
      else if arg = ''--csv''
      then Inr (0, options, g\<lparr>g_errors_print_csv := True\<rparr>)
      else if arg = ''--export-errors''
      then with_next_arg arg rest (\<lambda>a. Inr (1, options, g\<lparr>g_export_errors := a\<rparr>))
      else if arg = ''-m'' \<or> arg = ''--max-runs''
      then with_next_arg arg rest (\<lambda>a.
             case stoi E a of
               None \<Rightarrow> Inl Uncaught_exception
             | Some n \<Rightarrow> Inr (1, options\<lparr>max_runs := word_of_int n\<rparr>, g))
      else if arg = ''-l'' \<or> arg = ''--smt-lib''
      then Inr (0, options\<lparr>smt := True\<rparr>, g)
      else if arg = ''--fuzz-opts''
      then (if rest \<noteq> [] \<and> first_not_dash (hd rest)
            then Inr (1, options\<lparr>fuzz_options := True,
                                    fuzz_options_filter :=
                                      (if fuzz_options_filter options \<noteq> []
                                       then fuzz_options_filter options @ '','' @ hd rest
                                       else hd rest)\<rparr>, g)
            else Inr (0, options\<lparr>fuzz_options := True\<rparr>, g))
      else (case parse_theory_arg arg options of
              Inl e \<Rightarrow> Inl e
            | Inr options' \<Rightarrow> Inr (0, options', g)))"

subsection \<open>\<open>parse_options\<close>\<close>

text \<open>The loop over \<open>args\<close>: a turn handles \<open>arg\<close> and passes over what it took.\<close>

fun parse_args :: "Env \<Rightarrow> string list \<Rightarrow> Options \<times> Globals \<Rightarrow> error + (Options \<times> Globals)" where
  "parse_args E [] og = Inr og"
| "parse_args E (arg # rest) og =
     (case parse_arg E arg rest og of
        Inl e \<Rightarrow> Inl e
      | Inr (n, og') \<Rightarrow> parse_args E (drop n rest) og')"

text \<open>
  The loop that records the command line for the trace, with its index as in the source:
  \<open>++i; continue\<close> passes over an option and the argument after it.
\<close>

function record_cmd_line :: "string list \<Rightarrow> nat \<Rightarrow> string \<Rightarrow> error + string" where
  "record_cmd_line args i ss =
     (if i < length args
      then (if args ! i = ''-u'' then Inl Assertion_failed
            else if args ! i = ''--untrace'' then Inl Assertion_failed
            else if args ! i = ''-s'' \<or> args ! i = ''--seed'' \<or> args ! i = ''-a''
                    \<or> args ! i = ''--api-trace''
            then record_cmd_line args (i + 2) ss
            else if args ! i = ''-d'' \<or> args ! i = ''--dd''
            then record_cmd_line args (i + 1) ss
            else record_cmd_line args (i + 1) (ss @ '' '' @ args ! i))
      else Inr ss)"
  by pat_completeness auto
termination
  by (relation "measure (\<lambda>(args, i, ss). length args - i)") auto

declare record_cmd_line.simps [simp del]

text \<open>
  \<open>parse_options\<close>: \<open>get_options\<close>, the loop over \<open>args\<close>, the defaults for the solver and
  the checking solver, and the recorded command line.
\<close>

definition parse_options ::
  "Env \<Rightarrow> Options \<Rightarrow> Globals \<Rightarrow> string list \<Rightarrow> error + (Options \<times> Globals)" where
  "parse_options E options g argv =
     (case get_options E options argv of
        Inl e \<Rightarrow> Inl e
      | Inr (options1, args) \<Rightarrow>
          (case parse_args E args (options1, g) of
             Inl e \<Rightarrow> Inl e
           | Inr (options2, g2) \<Rightarrow>
               let options3 = (if solver options2 = [] then options2\<lparr>solver := SOLVER_SMT2\<rparr>
                               else options2);
                   options4 = (if solver options3 = SOLVER_SMT2
                               then options3\<lparr>check_solver := False, check_solver_name := []\<rparr>
                               else options3);
                   options5 = (if check_solver options4 \<and> check_solver_name options4 = []
                               then options4\<lparr>check_solver_name := solver options4\<rparr>
                               else options4)
               in (case record_cmd_line args 0 ''set-murxla-options'' of
                     Inl e \<Rightarrow> Inl e
                   | Inr ss \<Rightarrow> Inr (options5\<lparr>cmd_line_trace := ss\<rparr>, g2))))"

subsection \<open>\<open>main\<close>\<close>

text \<open>
  \<open>initialize_statistics\<close> leaves with an error when the shared-memory file cannot be
  opened or closed (the mapping itself is taken to succeed).
\<close>

definition initialize_statistics :: "Env \<Rightarrow> error option" where
  "initialize_statistics E =
     (if \<not> shm_open_ok E
      then Some (MURXLA_EXIT_ERROR ''failed to create shared memory file for statistics'')
      else if \<not> shm_close_ok E
      then Some (MURXLA_EXIT_ERROR ''failed to close shared memory file for statistics'')
      else None)"

text \<open>
  \<open>main\<close> up to its \<open>try\<close> block. The block constructs \<open>Murxla\<close> and runs it, traces,
  replays or minimises (murxla.hpp and dd.hpp are not among the sources): \<open>Enters_try\<close>
  says that control reaches the block, with the options, the globals and the temporary
  directory it works with. \<open>Terminated\<close> says that the process ends before the block.
\<close>

datatype main_result = Terminated error | Enters_try Options Globals string

definition main :: "Env \<Rightarrow> string list \<Rightarrow> main_result" where
  "main E argv =
     (case initialize_statistics E of
        Some e \<Rightarrow> Terminated e
      | None \<Rightarrow>
          (case parse_options E default_Options default_Globals argv of
             Inl e \<Rightarrow> Terminated e
           | Inr (options, g) \<Rightarrow>
               (case create_tmp_directory E (tmp_dir options) of
                  None \<Rightarrow> Terminated Uncaught_exception
                | Some TMP_DIR \<Rightarrow>
                    if api_trace_file_name options \<noteq> []
                       \<and> api_trace_file_name options = untrace_file_name options
                    then Terminated
                           (MURXLA_EXIT_ERROR
                              ''tracing into the file that is untraced is not supported'')
                    else Enters_try options g TMP_DIR)))"

section \<open>Concrete inputs\<close>

text \<open>Managers, options and operators on which the model is evaluated below.\<close>

definition stub_term_db :: "nat TermDb" where
  "stub_term_db =
     \<lparr> has_term = (\<lambda>sort_kind. sort_kind = SORT_BOOL \<or> sort_kind = SORT_FUN),
       has_var = False,
       has_quant_body = False,
       pick_term = (\<lambda>sort_kind level g. (7, Suc g)) \<rparr>"

definition opt_incremental :: "nat SolverOption" where
  "opt_incremental =
     \<lparr> get_name = ''incremental'', get_conflicts = [], get_depends = [],
       pick_value = (\<lambda>g. (''true'', Suc g)) \<rparr>"

definition opt_unsat_cores :: "nat SolverOption" where
  "opt_unsat_cores =
     \<lparr> get_name = ''produce-unsat-cores'', get_conflicts = [],
       get_depends = [''incremental''],
       pick_value = (\<lambda>g. (''true'', Suc g)) \<rparr>"

definition opt_no_incremental :: "nat SolverOption" where
  "opt_no_incremental =
     \<lparr> get_name = ''one-shot'', get_conflicts = [''incremental''], get_depends = [],
       pick_value = (\<lambda>g. (''true'', Suc g)) \<rparr>"

definition smgr_fresh :: "nat SolverManager" where
  "smgr_fresh =
     new_SolverManager [opt_incremental, opt_unsat_cores, opt_no_incremental] False True
       stub_term_db []"

definition smgr_incremental_used :: "nat SolverManager" where
  "smgr_incremental_used =
     (new_SolverManager [opt_incremental] False True stub_term_db [])
       \<lparr>d_used_solver_options := {''incremental''}\<rparr>"

definition opt_no_models :: "nat SolverOption" where
  "opt_no_models =
     \<lparr> get_name = ''no-models'', get_conflicts = [''produce-models''], get_depends = [],
       pick_value = (\<lambda>g. (''true'', Suc g)) \<rparr>"

definition smgr_blocked :: "nat SolverManager" where
  "smgr_blocked =
     (new_SolverManager [opt_unsat_cores, opt_no_models] False True stub_term_db [])
       \<lparr>d_used_solver_options := {''produce-models''}\<rparr>"

definition smgr_assuming :: "nat SolverManager" where
  "smgr_assuming = smgr_fresh\<lparr>d_assumptions := {7}\<rparr>"

definition smgr_random_symbols :: "nat SolverManager" where
  "smgr_random_symbols = new_SolverManager [] False False stub_term_db []"

text \<open>
  A generator that draws the lower bound of every range and whose coin always lands on
  \<open>True\<close>.
\<close>

definition heads_rng :: "nat RNGenerator" where
  "heads_rng =
     counter_rng\<lparr> pick_uint32_range := (\<lambda>lo hi g. (lo, Suc g)),
                   flip_coin := (\<lambda>g. (True, Suc g)) \<rparr>"

definition fresh_bool_sort :: Sort where
  "fresh_bool_sort =
     \<lparr> handle = 0, get_id = 0, get_kind = SORT_ANY, is_int = False, get_bv_size = 0,
       get_sorts_size = 0 \<rparr>"

text \<open>
  The ids of the sorts of the database lie in \<open>[1, n_sorts]\<close> (the order on words is the
  unsigned one).
\<close>

definition ids_in_range :: "'g SolverManager \<Rightarrow> bool" where
  "ids_in_range s \<longleftrightarrow> (\<forall>x \<in> set (d_sorts s). 1 \<le> get_id x \<and> get_id x \<le> d_n_sorts s)"

definition stored_bool_sort :: Sort where
  "stored_bool_sort = fresh_bool_sort\<lparr>get_kind := SORT_BOOL, get_id := 1\<rparr>"

definition smtmbt_smgr_after_add_sort :: "nat SolverManager" where
  "smtmbt_smgr_after_add_sort =
     smgr_fresh\<lparr>d_n_sorts := 1, d_sorts := [stored_bool_sort],
                d_sort_kind_to_sorts := [SORT_BOOL \<mapsto> []]\<rparr>"

definition smgr_after_add_sort :: "nat SolverManager" where
  "smgr_after_add_sort =
     smgr_fresh\<lparr>d_n_sorts := 1, d_sorts := [stored_bool_sort],
                d_sort_kind_to_sorts := [SORT_BOOL \<mapsto> [stored_bool_sort]]\<rparr>"

text \<open>
  The condition under which the loop of \<open>pick_op_kind\<close> enters an operator into
  \<open>kinds\<close>, as the source tests it.
\<close>

definition enters_kinds :: "'g TermDb \<Rightarrow> Op \<Rightarrow> bool" where
  "enters_kinds db op \<longleftrightarrow>
     \<not> ((d_kind op = OP_FORALL \<or> d_kind op = OP_EXISTS)
        \<and> (\<not> has_var db \<or> \<not> has_quant_body db))
     \<and> op_has_terms db op"

text \<open>
  What \<open>pick_op_kind\<close> requires of an operator, in the words of the amended claim C6: a
  quantifier needs a variable and a quantifier body; an operator of negative arity
  needs a term of the sort kind of its argument 0; any other operator needs a term of
  the sort kind of each argument below its arity.
\<close>

definition op_applicable :: "'g TermDb \<Rightarrow> Op \<Rightarrow> bool" where
  "op_applicable db op \<longleftrightarrow>
     ((d_kind op = OP_FORALL \<or> d_kind op = OP_EXISTS) \<longrightarrow> has_var db \<and> has_quant_body db) \<and>
     (if d_arity op < 0 then has_term db (get_arg_sort_kind op 0)
      else \<forall>i < nat (d_arity op). has_term db (get_arg_sort_kind op i))"

text \<open>
  The distinct elements of a list in the order of their first occurrence: the order in
  which a container receives them.
\<close>

fun first_occurrences :: "'a list \<Rightarrow> 'a list" where
  "first_occurrences [] = []"
| "first_occurrences (x # xs) = x # filter (\<lambda>y. y \<noteq> x) (first_occurrences xs)"

text \<open>
  What \<open>pick_op_kind\<close> draws from, in the words of the amended claim C6: the qualifying
  operators; their theories, each once, in the order in which the map iterates them;
  and the kinds of the qualifying operators of one theory, each once, in the order in
  which the set of that theory iterates them.
\<close>

definition qualifying_ops :: "'g SolverManager \<Rightarrow> Op list" where
  "qualifying_ops s = filter (op_applicable (d_term_db s)) (map snd (d_op_kinds s))"

definition qualifying_theories :: "Unordered \<Rightarrow> 'g SolverManager \<Rightarrow> TheoryId list" where
  "qualifying_theories U s =
     theory_order U (first_occurrences (map d_theory (qualifying_ops s)))"

definition qualifying_kinds :: "Unordered \<Rightarrow> 'g SolverManager \<Rightarrow> TheoryId \<Rightarrow> OpKind list" where
  "qualifying_kinds U s theory =
     op_kind_order U
       (first_occurrences (map d_kind (filter (\<lambda>op. d_theory op = theory) (qualifying_ops s))))"

definition op_not :: Op where
  "op_not =
     \<lparr> d_kind = OP ''NOT'', d_arity = 1, d_theory = THEORY_BOOL,
       get_arg_sort_kind = (\<lambda>i. SORT_BOOL) \<rparr>"

definition op_forall :: Op where
  "op_forall =
     \<lparr> d_kind = OP_FORALL, d_arity = 2, d_theory = THEORY_QUANT,
       get_arg_sort_kind = (\<lambda>i. if i = 0 then SORT_ANY else SORT_BOOL) \<rparr>"

definition op_bv_add :: Op where
  "op_bv_add =
     \<lparr> d_kind = OP ''BV_ADD'', d_arity = - 1, d_theory = THEORY_BV,
       get_arg_sort_kind = (\<lambda>i. SORT_BV) \<rparr>"

text \<open>
  An operator with at least two arguments (arity \<open>MURXLA_MK_TERM_N_ARGS_BIN\<close>, that is
  \<open>-2\<close>): a function first, bit-vectors after it.
\<close>

definition op_apply :: Op where
  "op_apply =
     \<lparr> d_kind = OP ''APPLY'', d_arity = - 2, d_theory = THEORY_UF,
       get_arg_sort_kind = (\<lambda>i. if i = 0 then SORT_FUN else SORT_BV) \<rparr>"

definition smgr_ops :: "nat SolverManager" where
  "smgr_ops =
     new_SolverManager [] False True stub_term_db
       [(OP_FORALL, op_forall), (OP ''BV_ADD'', op_bv_add), (OP ''NOT'', op_not)]"

definition smgr_apply :: "nat SolverManager" where
  "smgr_apply = new_SolverManager [] False True stub_term_db [(OP ''APPLY'', op_apply)]"

text \<open>
  Two iteration orders: the order of insertion, and its reverse. An operator \<open>AND\<close> of
  at least two Boolean arguments, and a manager whose operators qualify in two theories,
  two of them in one.
\<close>

definition insertion_iteration :: Unordered where
  "insertion_iteration = \<lparr> theory_order = (\<lambda>xs. xs), op_kind_order = (\<lambda>xs. xs) \<rparr>"

definition reverse_iteration :: Unordered where
  "reverse_iteration = \<lparr> theory_order = rev, op_kind_order = rev \<rparr>"

definition op_and :: Op where
  "op_and =
     \<lparr> d_kind = OP ''AND'', d_arity = - 2, d_theory = THEORY_BOOL,
       get_arg_sort_kind = (\<lambda>i. SORT_BOOL) \<rparr>"

definition smgr_many :: "nat SolverManager" where
  "smgr_many =
     new_SolverManager [] False True stub_term_db
       [(OP ''NOT'', op_not), (OP_FORALL, op_forall), (OP ''APPLY'', op_apply),
        (OP ''BV_ADD'', op_bv_add), (OP ''AND'', op_and)]"

subsection \<open>The command line\<close>

text \<open>
  The recording loop of \<open>parse_options\<close> (main.cpp, 762 to 777) as a function on lists:
  the arguments that the loop writes. It goes by the spelling of the argument at the
  index: \<open>-s\<close>, \<open>--seed\<close>, \<open>-a\<close> and \<open>--api-trace\<close> are passed over with the argument
  after them, \<open>-d\<close> and \<open>--dd\<close> are passed over, and every other argument is written.
\<close>

fun recorded_args :: "string list \<Rightarrow> string list" where
  "recorded_args [] = []"
| "recorded_args (a # rest) =
     (if a \<in> {''-s'', ''--seed'', ''-a'', ''--api-trace''} then recorded_args (drop 1 rest)
      else if a \<in> {''-d'', ''--dd''} then recorded_args rest
      else a # recorded_args rest)"

text \<open>
  The arguments that the recorded line is to hold, in the words of claim C5, an argument
  being an option or the value of an option as the loop of \<open>parse_options\<close> reads the
  list: the options \<open>-u\<close>, \<open>--untrace\<close>, \<open>-s\<close>, \<open>--seed\<close>, \<open>-a\<close>, \<open>--api-trace\<close>, \<open>-d\<close> and
  \<open>--dd\<close> go, with the value that the option takes; every other option stays with its
  value, in its place.
\<close>

fun kept_args :: "Env \<Rightarrow> string list \<Rightarrow> Options \<times> Globals \<Rightarrow> string list" where
  "kept_args E [] og = []"
| "kept_args E (arg # rest) og =
     (case parse_arg E arg rest og of
        Inl e \<Rightarrow> []
      | Inr (n, og') \<Rightarrow>
          (if arg \<in> {''-u'', ''--untrace'', ''-s'', ''--seed'', ''-a'', ''--api-trace'',
                      ''-d'', ''--dd''}
           then [] else arg # take n rest)
          @ kept_args E (drop n rest) og')"

text \<open>
  Whether an option that stays takes, as its value, an argument spelled like one of the
  options that the recording loop passes over.
\<close>

fun flag_spelled_value :: "Env \<Rightarrow> string list \<Rightarrow> Options \<times> Globals \<Rightarrow> bool" where
  "flag_spelled_value E [] og = False"
| "flag_spelled_value E (arg # rest) og =
     (case parse_arg E arg rest og of
        Inl e \<Rightarrow> False
      | Inr (n, og') \<Rightarrow>
          (arg \<notin> {''-u'', ''--untrace'', ''-s'', ''--seed'', ''-a'', ''--api-trace'',
                     ''-d'', ''--dd''}
           \<and> set (take n rest) \<inter> {''-s'', ''--seed'', ''-a'', ''--api-trace'', ''-d'', ''--dd''}
               \<noteq> {})
          \<or> flag_spelled_value E (drop n rest) og')"

text \<open>
  The turns of the loop of \<open>parse_options\<close> that start at one of the first \<open>k\<close>
  arguments: the loop, left when its index has reached \<open>k\<close>, with the arguments from
  the index on and the options and globals at that point.
\<close>

fun parse_first ::
  "Env \<Rightarrow> nat \<Rightarrow> string list \<Rightarrow> Options \<times> Globals
     \<Rightarrow> error + (string list \<times> Options \<times> Globals)" where
  "parse_first E k [] og = Inr ([], og)"
| "parse_first E k (arg # rest) og =
     (if k = 0 then Inr (arg # rest, og)
      else case parse_arg E arg rest og of
             Inl e \<Rightarrow> Inl e
           | Inr (n, og') \<Rightarrow> parse_first E (k - 1 - n) (drop n rest) og')"

text \<open>
  The two options that take the next argument unless it starts with a dash, and the
  switches that disable a theory.
\<close>

definition takes_next_unless_dash :: "string \<Rightarrow> bool" where
  "takes_next_unless_dash arg \<longleftrightarrow> arg = ''--smt2'' \<or> arg = ''--fuzz-opts''"

definition no_theory_flags :: "string set" where
  "no_theory_flags =
     {''--no-arrays'', ''--no-bv'', ''--no-bags'', ''--no-dt'', ''--no-fp'', ''--no-ints'',
      ''--no-quant'', ''--no-reals'', ''--no-seq'', ''--no-sets'', ''--no-strings'',
      ''--no-trans'', ''--no-uf''}"

text \<open>
  Of the result of one turn of the loop of \<open>parse_options\<close>: the number of arguments
  taken, and the disabled theories after it (those before it, when the turn ends the
  process).
\<close>

definition taken :: "error + (nat \<times> Options \<times> Globals) \<Rightarrow> nat" where
  "taken r = (case r of Inl _ \<Rightarrow> 0 | Inr (n, _) \<Rightarrow> n)"

definition disabled_after ::
  "Options \<Rightarrow> error + (nat \<times> Options \<times> Globals) \<Rightarrow> TheoryId set" where
  "disabled_after options r =
     (case r of Inl _ \<Rightarrow> disabled_theories options
              | Inr (_, options', _) \<Rightarrow> disabled_theories options')"

text \<open>
  An environment for evaluating the model: cvc5 is the solver of the build, \<open>split\<close>
  cuts at every delimiter (and drops an empty last token), the files \<open>run.trace\<close> and
  \<open>smt2.trace\<close> start with a line of options, and the file system calls succeed.
\<close>

fun split_chars :: "char \<Rightarrow> string \<Rightarrow> string \<Rightarrow> string list" where
  "split_chars delim [] tok = (if tok = [] then [] else [tok])"
| "split_chars delim (c # cs) tok =
     (if c = delim then tok # split_chars delim cs [] else split_chars delim cs (tok @ [c]))"

definition example_env :: Env where
  "example_env =
     \<lparr> use_boolector = False, use_bitwuzla = False, use_cvc5 = True, use_yices = False,
       check_solver_opt_prefix = ''check_'',
       split = (\<lambda>s delim. split_chars delim s []),
       atof = (\<lambda>a. if a = ''5'' then 5 else if a = ''7'' then 7 else 0),
       stoi = (\<lambda>a. None),
       read_seed_hex = (\<lambda>a. if a = ''1f'' then 31 else 0),
       read_seed_dec = (\<lambda>a. 0),
       path_is_dir = (\<lambda>p. p = ''/tmp''),
       first_line = (\<lambda>f. if f = ''run.trace'' then Some ''set-murxla-options --cvc5 -t 5''
                          else if f = ''smt2.trace'' then Some ''set-murxla-options --smt2''
                          else None),
       shm_open_ok = True, shm_close_ok = True,
       create_tmp_directory = (\<lambda>d. Some (d @ ''/murxla-1'')) \<rparr>"

definition ex_argv :: "string list" where
  "ex_argv = [''murxla'', ''-s'', ''1f'', ''-a'', ''run.trace'', ''-d'', ''-u'', ''run.trace'']"

definition ex_args :: "string list" where
  "ex_args = [''--cvc5'', ''-t'', ''5'', ''-s'', ''1f'', ''-a'', ''run.trace'', ''-d'']"

definition ex_options1 :: Options where
  "ex_options1 = default_Options\<lparr>untrace_file_name := ''run.trace''\<rparr>"

definition ex_options2 :: Options where
  "ex_options2 = ex_options1\<lparr>solver := ''cvc5'', time := 5\<rparr>"

definition ex_options :: Options where
  "ex_options =
     ex_options2\<lparr>seed := 31, is_seeded := True, api_trace_file_name := ''run.trace'',
                  dd := True, cmd_line_trace := ''set-murxla-options --cvc5 -t 5''\<rparr>"



definition ex_value_argv :: "string list" where
  "ex_value_argv = [''murxla'', ''-p'', ''-a'', ''--cvc5'', ''-v'']"

definition ex_value_args :: "string list" where
  "ex_value_args = [''-p'', ''-a'', ''--cvc5'', ''-v'']"

definition ex_value_options :: Options where
  "ex_value_options =
     default_Options\<lparr>verbosity := 1, solver := ''cvc5'', solver_profile_filename := ''-a'',
                      cmd_line_trace := ''set-murxla-options -p -v''\<rparr>"

section \<open>Properties of the solver manager\<close>

lemma replicate_numeral: "replicate (numeral n) c = c # replicate (pred_numeral n) c"
  by (simp add: numeral_eq_Suc)

subsection \<open>\<open>pick_option\<close>\<close>

lemma has_used_conflict_iff: "has_used_conflict used cs \<longleftrightarrow> (\<exists>c\<in>set cs. c \<in> used)"
  by (induction cs) auto

lemma has_unused_depend_iff: "has_unused_depend used ds \<longleftrightarrow> (\<exists>d\<in>set ds. d \<notin> used)"
  by (induction ds) auto

lemma available_options_filter:
  "available_options used opts =
     filter (\<lambda>opt. \<not> has_used_conflict used (get_conflicts opt)
                  \<and> \<not> has_unused_depend used (get_depends opt)) opts"
  by (induction opts) auto

lemma available_options_set:
  "opt \<in> set (available_options used opts) \<longleftrightarrow>
     opt \<in> set opts \<and> (\<forall>c\<in>set (get_conflicts opt). c \<notin> used)
       \<and> (\<forall>d\<in>set (get_depends opt). d \<in> used)"
  by (auto simp: available_options_filter has_used_conflict_iff has_unused_depend_iff)

lemma available_options_Nil_iff:
  "available_options used opts = [] \<longleftrightarrow>
     (\<forall>opt\<in>set opts. (\<exists>c\<in>set (get_conflicts opt). c \<in> used)
                       \<or> (\<exists>d\<in>set (get_depends opt). d \<notin> used))"
  by (auto simp: available_options_filter filter_empty_conv has_used_conflict_iff
        has_unused_depend_iff)

lemma pick_option_Inr:
  assumes "pick_option R g s = Inr ((name, val), g', s')" and "d_solver_options s \<noteq> []"
  shows "\<exists>opt \<in> set (available_options (d_used_solver_options s) (d_solver_options s)).
           get_name opt = name
           \<and> s' = s\<lparr>d_used_solver_options := insert name (d_used_solver_options s)\<rparr>"
  using assms
  by (auto simp: pick_option_def Let_def insert_absorb split: prod.splits if_splits)

lemma pick_option_cases:
  "pick_option R g s = Inl Division_by_zero \<and> d_solver_options s \<noteq> []
      \<and> available_options (d_used_solver_options s) (d_solver_options s) = []
   \<or> (\<exists>res. pick_option R g s = Inr res) \<and>
      (d_solver_options s = []
       \<or> available_options (d_used_solver_options s) (d_solver_options s) \<noteq> [])"
  by (auto simp: pick_option_def Let_def split: prod.splits)

text \<open>
  C1, as stated, fails: \<open>pick_option\<close> has no filter for options that are already used.
  With the single option \<open>incremental\<close>, which is in \<open>d_used_solver_options\<close>, it returns
  \<open>incremental\<close> again.
\<close>

theorem pick_option_returns_used_option:
  "pick_option counter_rng 0 smgr_incremental_used
     = Inr ((''incremental'', ''true''), 2, smgr_incremental_used)
   \<and> d_solver_options smgr_incremental_used \<noteq> []
   \<and> ''incremental'' \<in> d_used_solver_options smgr_incremental_used"
  by (simp add: pick_option_def smgr_incremental_used_def new_SolverManager_def
        opt_incremental_def counter_rng_def Let_def numeral_2_eq_2)

text \<open>
  C1, amended. For every pair \<open>(name, value)\<close> that \<open>pick_option\<close> returns when the list
  of solver options is not empty, \<open>name\<close> is the name of an option of the list none of
  whose conflicts is in \<open>used_options\<close> and all of whose dependencies are in
  \<open>used_options\<close> (as the set is before the call); the option may be in \<open>used_options\<close>
  already; after the call \<open>used_options\<close> is the set before the call with \<open>name\<close>
  added.
\<close>

theorem pick_option_chosen:
  assumes "pick_option R g s = Inr ((name, val), g', s')" and "d_solver_options s \<noteq> []"
  shows "(\<exists>opt \<in> set (d_solver_options s). get_name opt = name \<and>
            (\<forall>c \<in> set (get_conflicts opt). c \<notin> d_used_solver_options s) \<and>
            (\<forall>d \<in> set (get_depends opt). d \<in> d_used_solver_options s)) \<and>
         d_used_solver_options s' = insert name (d_used_solver_options s)"
proof -
  from pick_option_Inr [OF assms] obtain opt where
    opt: "opt \<in> set (available_options (d_used_solver_options s) (d_solver_options s))"
    and name: "get_name opt = name"
    and s': "s' = s\<lparr>d_used_solver_options := insert name (d_used_solver_options s)\<rparr>"
    by blast
  from opt have "opt \<in> set (d_solver_options s)"
    and "\<forall>c \<in> set (get_conflicts opt). c \<notin> d_used_solver_options s"
    and "\<forall>d \<in> set (get_depends opt). d \<in> d_used_solver_options s"
    by (simp_all add: available_options_set)
  with name s' show ?thesis by auto
qed

lemma pick_option_fresh:
  "pick_option counter_rng 0 smgr_fresh
     = Inr ((''incremental'', ''true''), 2,
            smgr_fresh\<lparr>d_used_solver_options := {''incremental''}\<rparr>)"
  by (simp add: pick_option_def smgr_fresh_def new_SolverManager_def opt_incremental_def
        opt_unsat_cores_def opt_no_incremental_def counter_rng_def Let_def numeral_2_eq_2)

theorem pick_option_chosen_witness:
  "pick_option counter_rng 0 smgr_fresh
     = Inr ((''incremental'', ''true''), 2,
            smgr_fresh\<lparr>d_used_solver_options := {''incremental''}\<rparr>)
   \<and> d_solver_options smgr_fresh \<noteq> []
   \<and> (\<exists>opt \<in> set (d_solver_options smgr_fresh). get_name opt = ''incremental'' \<and>
         (\<forall>c \<in> set (get_conflicts opt). c \<notin> d_used_solver_options smgr_fresh) \<and>
         (\<forall>d \<in> set (get_depends opt). d \<in> d_used_solver_options smgr_fresh))
   \<and> d_used_solver_options (smgr_fresh\<lparr>d_used_solver_options := {''incremental''}\<rparr>)
       = insert ''incremental'' (d_used_solver_options smgr_fresh)"
proof -
  have ne: "d_solver_options smgr_fresh \<noteq> []"
    by (simp add: smgr_fresh_def new_SolverManager_def)
  from pick_option_chosen [OF pick_option_fresh ne] pick_option_fresh ne show ?thesis
    by blast
qed

text \<open>
  C8. \<open>pick_option\<close> computes the index modulo \<open>available.size()\<close> without a guard for
  an empty \<open>available\<close>: it ends in the modulus by zero exactly when the list of solver
  options is not empty and every option has a conflict in \<open>used_options\<close> or a
  dependency outside it. In every other state it returns, and the index is in bounds:
  the read past \<open>available\<close> does not occur.
\<close>

theorem pick_option_total_iff:
  "(pick_option R g s = Inl Division_by_zero \<longleftrightarrow>
      d_solver_options s \<noteq> [] \<and>
      (\<forall>opt \<in> set (d_solver_options s).
          (\<exists>c \<in> set (get_conflicts opt). c \<in> d_used_solver_options s)
          \<or> (\<exists>d \<in> set (get_depends opt). d \<notin> d_used_solver_options s)))
   \<and> (pick_option R g s \<noteq> Inl Division_by_zero \<longrightarrow> (\<exists>res. pick_option R g s = Inr res))
   \<and> pick_option R g s \<noteq> Inl Index_out_of_bounds"
  using pick_option_cases [of R g s]
  unfolding available_options_Nil_iff [symmetric]
  by auto

theorem pick_option_total_iff_witness:
  "pick_option counter_rng 0 smgr_blocked = Inl Division_by_zero
   \<and> (\<exists>res. pick_option counter_rng 0 smgr_fresh = Inr res)"
proof -
  have blocked: "d_solver_options smgr_blocked \<noteq> [] \<and>
      (\<forall>opt \<in> set (d_solver_options smgr_blocked).
          (\<exists>c \<in> set (get_conflicts opt). c \<in> d_used_solver_options smgr_blocked)
          \<or> (\<exists>d \<in> set (get_depends opt). d \<notin> d_used_solver_options smgr_blocked))"
    by (simp add: smgr_blocked_def new_SolverManager_def opt_unsat_cores_def
          opt_no_models_def)
  have fresh: "\<not> (d_solver_options smgr_fresh \<noteq> [] \<and>
      (\<forall>opt \<in> set (d_solver_options smgr_fresh).
          (\<exists>c \<in> set (get_conflicts opt). c \<in> d_used_solver_options smgr_fresh)
          \<or> (\<exists>d \<in> set (get_depends opt). d \<notin> d_used_solver_options smgr_fresh)))"
    by (simp add: smgr_fresh_def new_SolverManager_def opt_incremental_def)
  from pick_option_total_iff [of counter_rng 0 smgr_blocked] blocked
  have "pick_option counter_rng 0 smgr_blocked = Inl Division_by_zero"
    by blast
  moreover from pick_option_total_iff [of counter_rng 0 smgr_fresh] fresh
  have "\<exists>res. pick_option counter_rng 0 smgr_fresh = Inr res"
    by blast
  ultimately show ?thesis by blast
qed

subsection \<open>\<open>reset_sat\<close>\<close>

text \<open>
  C3, as stated, fails for the current revision: \<open>reset_sat\<close> clears the assumptions
  only under \<open>if (d_sat_called)\<close>. After \<open>pick_assumption\<close> on a fresh manager, with no
  sat call, \<open>reset_sat\<close> leaves the picked assumption in the set.
\<close>

theorem reset_sat_keeps_assumptions:
  "pick_assumption 0 smgr_fresh = Inr (7, 1, smgr_assuming)
   \<and> \<not> d_sat_called smgr_assuming
   \<and> d_assumptions (reset_sat smgr_assuming) = {7}"
  by (simp add: pick_assumption_def reset_sat_def clear_assumptions_def smgr_assuming_def
        smgr_fresh_def new_SolverManager_def stub_term_db_def)

text \<open>
  C3, amended. After every call to \<open>reset_sat\<close> the flag \<open>sat_called\<close> is false; the set
  of assumptions is empty if \<open>sat_called\<close> was true before the call, and is the set
  before the call otherwise. Nothing else of the manager changes.
\<close>

theorem reset_sat_effect:
  "reset_sat s =
     s\<lparr>d_assumptions := (if d_sat_called s then {} else d_assumptions s),
        d_sat_called := False\<rparr>"
  by (simp add: reset_sat_def clear_assumptions_def)

theorem reset_sat_effect_witness:
  "reset_sat (smgr_assuming\<lparr>d_sat_called := True\<rparr>) = smgr_fresh
   \<and> reset_sat smgr_assuming = smgr_assuming"
  using reset_sat_effect [of "smgr_assuming\<lparr>d_sat_called := True\<rparr>"]
    reset_sat_effect [of smgr_assuming]
  by (simp add: smgr_assuming_def smgr_fresh_def new_SolverManager_def)

text \<open>The older revision of \<open>reset_sat\<close> satisfies C3 as it is stated.\<close>

lemma smtmbt_reset_sat_effect:
  "d_assumptions (smtmbt_reset_sat s) = {} \<and> \<not> d_sat_called (smtmbt_reset_sat s)"
  by (simp add: smtmbt_reset_sat_def clear_assumptions_def)

subsection \<open>\<open>pick_symbol\<close>\<close>

text \<open>
  C7, as stated, fails: for the length 0 the coin is not flipped
  (\<open>len && d_rng.flip_coin()\<close>) and the symbol is the simple one. With a generator that
  draws the length 0 and whose coin would land on the piped symbol, \<open>pick_symbol\<close>
  returns the simple symbol of length 0, and the engine has made two draws, not three.
\<close>

theorem pick_symbol_length_zero_not_piped:
  "pick_symbol heads_rng 0 smgr_random_symbols = ([], 2, smgr_random_symbols)
   \<and> pick_uint32_range heads_rng 0 128 0 = (0, 1)
   \<and> fst (flip_coin heads_rng 1)
   \<and> fst (pick_piped_symbol heads_rng 0 2) = ''||''"
  by (simp add: pick_symbol_def heads_rng_def counter_rng_def smgr_random_symbols_def
        new_SolverManager_def MURXLA_SYMBOL_LEN_MAX_def numeral_2_eq_2)

text \<open>
  C7, amended. In simple-symbol mode \<open>pick_symbol\<close> returns \<open>"_x"\<close> followed by the
  decimal digits of the counter \<open>d_n_symbols\<close>, which it increases by one (modulo
  \<open>2^64\<close>), and draws nothing. In random mode it draws a length from \<open>[0, 128]\<close>; for
  the length 0 it returns a simple symbol of length 0 without flipping the coin; for
  any other length it flips the coin and returns a piped symbol of that length if the
  coin is true, a simple symbol of that length if not.
\<close>

theorem pick_symbol_cases:
  "pick_symbol R g s =
     (if d_simple_symbols s
      then (''_x'' @ dec_digits (unat (d_n_symbols s)), g, s\<lparr>d_n_symbols := d_n_symbols s + 1\<rparr>)
      else
        let (len, g1) = pick_uint32_range R 0 128 g
        in if len = 0
           then (let (sym, g2) = pick_simple_symbol R 0 g1 in (sym, g2, s))
           else
             let (coin, g2) = flip_coin R g1;
                 (sym, g3) = (if coin then pick_piped_symbol R len g2
                              else pick_simple_symbol R len g2)
             in (sym, g3, s))"
  by (simp add: pick_symbol_def MURXLA_SYMBOL_LEN_MAX_def Let_def split: prod.splits)

theorem pick_symbol_cases_witness:
  "pick_symbol counter_rng 0 (smgr_fresh\<lparr>d_n_symbols := 41\<rparr>)
     = (''_x41'', 0, smgr_fresh\<lparr>d_n_symbols := 42\<rparr>)
   \<and> pick_symbol counter_rng 2 smgr_random_symbols = (''aa'', 5, smgr_random_symbols)
   \<and> pick_symbol counter_rng 3 smgr_random_symbols = (''|aaa|'', 6, smgr_random_symbols)"
proof -
  have "pick_symbol counter_rng 0 (smgr_fresh\<lparr>d_n_symbols := 41\<rparr>)
          = (''_x41'', 0, smgr_fresh\<lparr>d_n_symbols := 42\<rparr>)"
    by (subst pick_symbol_cases)
       (simp add: smgr_fresh_def new_SolverManager_def dec_digits.simps digit_char_def)
  moreover
  have "pick_symbol counter_rng 2 smgr_random_symbols = (''aa'', 5, smgr_random_symbols)"
    by (subst pick_symbol_cases)
       (simp add: counter_rng_def smgr_random_symbols_def new_SolverManager_def
          replicate_numeral)
  moreover
  have "pick_symbol counter_rng 3 smgr_random_symbols = (''|aaa|'', 6, smgr_random_symbols)"
    by (subst pick_symbol_cases)
       (simp add: counter_rng_def smgr_random_symbols_def new_SolverManager_def
          replicate_numeral)
  ultimately show ?thesis by simp
qed

text \<open>The older revision writes the prefix \<open>"_s"\<close>.\<close>

lemma smtmbt_pick_symbol_simple:
  "d_simple_symbols s \<Longrightarrow>
     smtmbt_pick_symbol R g s
       = (''_s'' @ dec_digits (unat (d_n_symbols s)), g, s\<lparr>d_n_symbols := d_n_symbols s + 1\<rparr>)"
  by (simp add: smtmbt_pick_symbol_def)subsection \<open>\<open>add_sort\<close>\<close>

lemma sortset_find_Some: "sortset_find srt sorts = Some it \<Longrightarrow> it \<in> set sorts \<and> handle it = handle srt"
  unfolding sortset_find_def by (auto simp: find_Some_iff)

lemma sortset_find_None: "sortset_find srt sorts = None \<longleftrightarrow> (\<forall>x\<in>set sorts. handle x \<noteq> handle srt)"
  unfolding sortset_find_def by (auto simp: find_None_iff)

lemma set_sortset_insert:
  "set (sortset_insert srt sorts) = (if sortset_find srt sorts = None then insert srt (set sorts) else set sorts)"
  by (auto simp: sortset_insert_def split: option.splits)

lemma sortset_find_get_id_update [simp]:
  "sortset_find (srt\<lparr>get_id := n\<rparr>) sorts = sortset_find srt sorts"
  by (simp add: sortset_find_def)

lemma add_sort_to_kind_Inr:
  assumes "add_sort_to_kind srt sort_kind s = Inr (srt', s')"
  shows "srt' = srt" and "get_id srt \<noteq> 0"
    and "d_sorts s' = d_sorts s" and "d_n_sorts s' = d_n_sorts s"
    and "\<exists>x \<in> set (kind_sorts (d_sort_kind_to_sorts s') sort_kind). handle x = handle srt"
  using assms
  by (auto simp: add_sort_to_kind_def Let_def kind_sorts_def set_sortset_insert sortset_find_None
           split: if_splits option.splits)

lemma add_sort_Inr_cases:
  assumes "add_sort srt sort_kind s = Inr (srt', s')"
  obtains (new) srt1 s1 where
      "sortset_find srt1 (d_sorts s) = None" "handle srt1 = handle srt"
      "srt' = srt1\<lparr>get_id := d_n_sorts s + 1\<rparr>"
      "s1 = s\<lparr>d_n_sorts := d_n_sorts s + 1, d_sorts := d_sorts s @ [srt']\<rparr>"
      "add_sort_to_kind srt' sort_kind s1 = Inr (srt', s')"
    | (found) "sortset_find (if get_kind srt = SORT_ANY then srt\<lparr>get_kind := sort_kind\<rparr> else srt) (d_sorts s) = Some srt'"
      "add_sort_to_kind srt' sort_kind s = Inr (srt', s')"
proof -
  define srt1 where "srt1 = (if get_kind srt = SORT_ANY then srt\<lparr>get_kind := sort_kind\<rparr> else srt)"
  have h: "handle srt1 = handle srt" by (simp add: srt1_def)
  show thesis
  proof (cases "sortset_find srt1 (d_sorts s)")
    case None
    define srt2 where "srt2 = srt1\<lparr>get_id := d_n_sorts s + 1\<rparr>"
    define s1 where "s1 = s\<lparr>d_n_sorts := d_n_sorts s + 1, d_sorts := d_sorts s @ [srt2]\<rparr>"
    from assms None have a: "add_sort_to_kind srt2 sort_kind s1 = Inr (srt', s')"
      by (simp add: add_sort_def Let_def srt1_def [symmetric] srt2_def s1_def sortset_insert_def
               split: if_splits)
    from add_sort_to_kind_Inr(1) [OF a] have "srt' = srt2" .
    with a None h show thesis
      by (intro new [of srt1 s1]) (simp_all add: srt2_def s1_def)
  next
    case (Some it)
    from assms Some have a: "add_sort_to_kind it sort_kind s = Inr (srt', s')"
      by (simp add: add_sort_def Let_def srt1_def [symmetric] split: if_splits)
    from add_sort_to_kind_Inr(1) [OF a] have "srt' = it" .
    with a Some show thesis
      by (intro found) (simp_all add: srt1_def)
  qed
qed

text \<open>
  The current revision: every call of \<open>add_sort\<close> that returns leaves the sort it
  stores in the database, and the set of the kind it was added as holds that sort
  (a sort with its handle).
\<close>

theorem add_sort_registers:
  assumes "add_sort srt sort_kind s = Inr (srt', s')"
  shows "handle srt' = handle srt \<and> srt' \<in> set (d_sorts s') \<and>
         (\<exists>x \<in> set (kind_sorts (d_sort_kind_to_sorts s') sort_kind). handle x = handle srt')"
  using assms
proof (cases rule: add_sort_Inr_cases)
  case (new srt1 s1)
  from add_sort_to_kind_Inr(3,5) [OF new(5)] new(1-4) show ?thesis
    by simp
next
  case found
  from sortset_find_Some [OF found(1)] add_sort_to_kind_Inr(3,5) [OF found(2)] show ?thesis
    by (auto split: if_splits)
qed

lemma word_inc_less: "(n :: 64 word) + 1 \<noteq> 0 \<Longrightarrow> n < n + 1"
  using inc_less_eq_self_iff_eq [of n] by (auto simp: not_le [symmetric])

lemma word_one_le: "(n :: 64 word) \<noteq> 0 \<Longrightarrow> 1 \<le> n"
  by (simp add: word_le_nat_alt unat_gt_0 Suc_leI)

lemma add_sort_ids:
  assumes "add_sort srt sort_kind s = Inr (srt', s')" and "ids_in_range s"
  shows "ids_in_range s'"
  using assms(1)
proof (cases rule: add_sort_Inr_cases)
  case (new srt1 s1)
  from add_sort_to_kind_Inr(2,3,4) [OF new(5)] new(3)
  have nz: "d_n_sorts s + 1 \<noteq> 0" and ds: "d_sorts s' = d_sorts s1" and dn: "d_n_sorts s' = d_n_sorts s1"
    by simp_all
  from word_inc_less [OF nz] have lt: "d_n_sorts s < d_n_sorts s + 1" .
  have one: "1 \<le> d_n_sorts s + 1"
    using nz by (rule word_one_le)
  from assms(2) lt one show ?thesis
    unfolding ids_in_range_def ds dn new(4) new(3)
    by (auto simp: less_imp_le order.trans)
next
  case found
  from add_sort_to_kind_Inr(3,4) [OF found(2)] assms(2) show ?thesis
    by (simp add: ids_in_range_def)
qed


lemma add_sorts_ids:
  "add_sorts calls s = Inr s' \<Longrightarrow> ids_in_range s \<Longrightarrow> ids_in_range s'"
proof (induction calls arbitrary: s)
  case Nil
  then show ?case by simp
next
  case (Cons call calls)
  obtain srt sort_kind where call: "call = (srt, sort_kind)" by (cases call)
  from Cons.prems(1) call obtain srt1 s1 where
    step: "add_sort srt sort_kind s = Inr (srt1, s1)" and rest: "add_sorts calls s1 = Inr s'"
    by (auto split: sum.splits)
  from add_sort_ids [OF step Cons.prems(2)] have "ids_in_range s1" .
  with Cons.IH rest show ?case by blast
qed

text \<open>
  The current revision: after any sequence of \<open>add_sort\<close> calls on a new manager, none
  of which fails an assertion, every sort of the database has an id in
  \<open>[1, n_sorts]\<close>. (The assertion \<open>assert(sort->get_id())\<close> stops the call in which the
  64-bit counter would wrap around.)
\<close>

theorem add_sorts_ids_in_range:
  assumes "add_sorts calls (new_SolverManager opts subtyping simple db ops) = Inr s"
  shows "ids_in_range s"
  using assms
  by (rule add_sorts_ids) (simp add: ids_in_range_def new_SolverManager_def)

lemma add_sort_fresh_bool:
  "add_sort fresh_bool_sort SORT_BOOL smgr_fresh = Inr (stored_bool_sort, smgr_after_add_sort)"
  by (simp add: add_sort_def add_sort_to_kind_def Let_def sortset_find_def sortset_insert_def
        kind_sorts_def int_kind_ok_def kind_ok_def fresh_bool_sort_def stored_bool_sort_def
        smgr_after_add_sort_def smgr_fresh_def new_SolverManager_def)

theorem add_sort_registers_witness:
  "add_sort fresh_bool_sort SORT_BOOL smgr_fresh = Inr (stored_bool_sort, smgr_after_add_sort)
   \<and> handle stored_bool_sort = handle fresh_bool_sort
   \<and> stored_bool_sort \<in> set (d_sorts smgr_after_add_sort)
   \<and> (\<exists>x \<in> set (kind_sorts (d_sort_kind_to_sorts smgr_after_add_sort) SORT_BOOL).
         handle x = handle stored_bool_sort)"
  using add_sort_registers [OF add_sort_fresh_bool] add_sort_fresh_bool
  by blast

theorem add_sorts_ids_in_range_witness:
  "add_sorts [(fresh_bool_sort, SORT_BOOL)] smgr_fresh = Inr smgr_after_add_sort
   \<and> ids_in_range smgr_after_add_sort"
proof -
  have run: "add_sorts [(fresh_bool_sort, SORT_BOOL)]
               (new_SolverManager [opt_incremental, opt_unsat_cores, opt_no_incremental]
                  False True stub_term_db [])
             = Inr smgr_after_add_sort"
    using add_sort_fresh_bool by (simp add: smgr_fresh_def)
  from add_sorts_ids_in_range [OF run] run show ?thesis
    by (simp add: smgr_fresh_def)
qed

text \<open>
  The older revision: the guard of the last statement of \<open>add_sort\<close> reads
  \<open>!=\<close> where the current revision reads \<open>==\<close>, so nothing ever enters a set of
  \<open>d_sort_kind_to_sorts\<close>: the sets stay empty over any sequence of calls.
\<close>

lemma smtmbt_add_sort_to_kind_empty:
  assumes "smtmbt_add_sort_to_kind srt sort_kind s = Inr (srt', s')"
    and "\<forall>k. kind_sorts (d_sort_kind_to_sorts s) k = []"
  shows "\<forall>k. kind_sorts (d_sort_kind_to_sorts s') k = []"
  using assms
  by (auto simp: smtmbt_add_sort_to_kind_def Let_def kind_sorts_def sortset_find_def
        split: if_splits)

lemma smtmbt_add_sort_empty:
  assumes "smtmbt_add_sort srt sort_kind s = Inr (srt', s')"
    and "\<forall>k. kind_sorts (d_sort_kind_to_sorts s) k = []"
  shows "\<forall>k. kind_sorts (d_sort_kind_to_sorts s') k = []"
proof (cases "sortset_find (if get_kind srt = SORT_ANY then srt\<lparr>get_kind := sort_kind\<rparr> else srt)
                (d_sorts s)")
  case None
  with assms(1) obtain srt2 s1 where
    "smtmbt_add_sort_to_kind srt2 sort_kind s1 = Inr (srt', s')"
    and "d_sort_kind_to_sorts s1 = d_sort_kind_to_sorts s"
    by (auto simp: smtmbt_add_sort_def Let_def split: if_splits)
  with assms(2) smtmbt_add_sort_to_kind_empty show ?thesis
    by metis
next
  case (Some it)
  with assms(1) have "smtmbt_add_sort_to_kind it sort_kind s = Inr (srt', s')"
    by (auto simp: smtmbt_add_sort_def Let_def split: if_splits)
  with assms(2) smtmbt_add_sort_to_kind_empty show ?thesis
    by metis
qed

theorem smtmbt_add_sorts_kind_sets_empty:
  assumes "smtmbt_add_sorts calls s = Inr s'"
    and "\<forall>k. kind_sorts (d_sort_kind_to_sorts s) k = []"
  shows "\<forall>k. kind_sorts (d_sort_kind_to_sorts s') k = []"
  using assms
proof (induction calls arbitrary: s)
  case Nil
  then show ?case by simp
next
  case (Cons call calls)
  obtain srt sort_kind where call: "call = (srt, sort_kind)" by (cases call)
  from Cons.prems(1) call obtain srt1 s1 where
    step: "smtmbt_add_sort srt sort_kind s = Inr (srt1, s1)"
    and rest: "smtmbt_add_sorts calls s1 = Inr s'"
    by (auto split: sum.splits)
  from smtmbt_add_sort_empty [OF step Cons.prems(2)] Cons.IH [OF rest] show ?case
    by blast
qed

text \<open>
  C2 holds for the current revision as far as the lemmas above say, and fails for the
  older revision of \<open>add_sort\<close>, whose guard is the typo that the spec names. On a new
  manager, \<open>add_sort(sort, SORT_BOOL)\<close> of the older revision stores the sort in the
  database with the id 1 and the kind \<open>SORT_BOOL\<close>, creates the entry of \<open>SORT_BOOL\<close> in
  \<open>d_sort_kind_to_sorts\<close>, and leaves that entry empty: the sort of the database is not
  in the set of its kind.
\<close>

theorem smtmbt_add_sort_misses_kind_set:
  "smtmbt_add_sort fresh_bool_sort SORT_BOOL smgr_fresh
     = Inr (stored_bool_sort, smtmbt_smgr_after_add_sort)
   \<and> stored_bool_sort \<in> set (d_sorts smtmbt_smgr_after_add_sort)
   \<and> get_kind stored_bool_sort = SORT_BOOL
   \<and> get_id stored_bool_sort = 1
   \<and> d_sort_kind_to_sorts smtmbt_smgr_after_add_sort SORT_BOOL = Some []"
  by (simp add: smtmbt_add_sort_def smtmbt_add_sort_to_kind_def Let_def sortset_find_def
        sortset_insert_def kind_sorts_def fresh_bool_sort_def stored_bool_sort_def
        smtmbt_smgr_after_add_sort_def smgr_fresh_def new_SolverManager_def)

theorem smtmbt_add_sort_misses_kind_set_witness:
  "(\<exists>res. smtmbt_add_sort fresh_bool_sort SORT_BOOL smgr_fresh = Inr res)
   \<and> kind_sorts (d_sort_kind_to_sorts smtmbt_smgr_after_add_sort) (get_kind stored_bool_sort)
       = []"
  using smtmbt_add_sort_misses_kind_set
  by (simp add: kind_sorts_def)

subsection \<open>\<open>pick_op_kind\<close>\<close>

lemma collect_kinds_Cons:
  "collect_kinds db (p # ps) m =
     collect_kinds db ps (if enters_kinds db (snd p) then kinds_insert (d_theory (snd p)) (d_kind (snd p)) m else m)"
  by (simp add: Let_def enters_kinds_def)

lemma op_has_terms_iff:
  "op_has_terms db op \<longleftrightarrow>
     (if d_arity op < 0 then has_term db (get_arg_sort_kind op 0)
      else \<forall>i < nat (d_arity op). has_term db (get_arg_sort_kind op i))"
  by (auto simp: op_has_terms_def list_all_iff)

lemma enters_kinds_iff: "enters_kinds db op \<longleftrightarrow> op_applicable db op"
  unfolding enters_kinds_def op_applicable_def op_has_terms_iff by blast

lemma map_fst_kinds_insert:
  "map fst (kinds_insert t k m) = (if t \<in> fst ` set m then map fst m else map fst m @ [t])"
  by (induction m) force+

lemma kinds_at_insert:
  "kinds_at (kinds_insert t k m) t' =
     (if t' = t then (if k \<in> set (kinds_at m t) then kinds_at m t else kinds_at m t @ [k])
      else kinds_at m t')"
  by (induction m) (auto simp: kinds_at_def)

lemma kinds_at_Nil: "kinds_at [] t = []"
  by (simp add: kinds_at_def)


lemma set_first_occurrences: "set (first_occurrences xs) = set xs"
  by (induction xs) auto

lemma distinct_first_occurrences: "distinct (first_occurrences xs)"
  by (induction xs) (auto simp: set_first_occurrences)

lemma first_occurrences_Nil_iff: "first_occurrences xs = [] \<longleftrightarrow> xs = []"
  by (cases xs) simp_all

lemma keys_kinds_insert: "fst ` set (kinds_insert t k m) = insert t (fst ` set m)"
  using arg_cong [OF map_fst_kinds_insert [of t k m], of set] by (auto simp: image_iff)

lemma collect_kinds_keys_list:
  "map fst (collect_kinds db ps m) =
     map fst m @ filter (\<lambda>t. t \<notin> fst ` set m)
                   (first_occurrences (map d_theory (filter (enters_kinds db) (map snd ps))))"
proof (induction ps arbitrary: m)
  case Nil
  show ?case by simp
next
  case (Cons p ps)
  show ?case
  proof (cases "enters_kinds db (snd p)")
    case True
    then show ?thesis
      unfolding collect_kinds_Cons Cons.IH
      by (auto simp: map_fst_kinds_insert keys_kinds_insert intro!: filter_cong)
  next
    case False
    then show ?thesis
      unfolding collect_kinds_Cons Cons.IH by simp
  qed
qed

lemma collect_kinds_at_list:
  "kinds_at (collect_kinds db ps m) t =
     kinds_at m t @ filter (\<lambda>k. k \<notin> set (kinds_at m t))
        (first_occurrences
           (map d_kind (filter (\<lambda>op. enters_kinds db op \<and> d_theory op = t) (map snd ps))))"
proof (induction ps arbitrary: m)
  case Nil
  show ?case by simp
next
  case (Cons p ps)
  show ?case
  proof (cases "enters_kinds db (snd p) \<and> d_theory (snd p) = t")
    case True
    then show ?thesis
      unfolding collect_kinds_Cons Cons.IH
      by (auto simp: kinds_at_insert intro!: filter_cong)
  next
    case False
    then show ?thesis
      unfolding collect_kinds_Cons Cons.IH
      by (auto simp: kinds_at_insert)
  qed
qed

lemma collect_kinds_theories:
  "map fst (collect_kinds (d_term_db s) (d_op_kinds s) [])
     = first_occurrences (map d_theory (qualifying_ops s))"
proof -
  have "filter (enters_kinds (d_term_db s)) (map snd (d_op_kinds s)) = qualifying_ops s"
    unfolding qualifying_ops_def by (rule filter_cong) (simp_all add: enters_kinds_iff)
  then show ?thesis
    by (simp add: collect_kinds_keys_list)
qed

lemma collect_kinds_kinds:
  "kinds_at (collect_kinds (d_term_db s) (d_op_kinds s) []) t
     = first_occurrences (map d_kind (filter (\<lambda>op. d_theory op = t) (qualifying_ops s)))"
proof -
  have "filter (\<lambda>op. enters_kinds (d_term_db s) op \<and> d_theory op = t) (map snd (d_op_kinds s))
          = filter (\<lambda>op. d_theory op = t) (qualifying_ops s)"
    unfolding qualifying_ops_def filter_filter
    by (rule filter_cong) (auto simp: enters_kinds_iff)
  then show ?thesis
    by (simp add: collect_kinds_at_list kinds_at_Nil)
qed

lemma qualifying_theories_set:
  assumes "iteration_order (theory_order U)"
  shows "distinct (qualifying_theories U s)"
    and "set (qualifying_theories U s) = d_theory ` set (qualifying_ops s)"
  using assms distinct_first_occurrences [of "map d_theory (qualifying_ops s)"]
  by (simp_all add: iteration_order_def qualifying_theories_def set_first_occurrences)

lemma qualifying_kinds_set:
  assumes "iteration_order (op_kind_order U)"
  shows "distinct (qualifying_kinds U s t)"
    and "set (qualifying_kinds U s t) = d_kind ` {op \<in> set (qualifying_ops s). d_theory op = t}"
  using assms
    distinct_first_occurrences [of "map d_kind (filter (\<lambda>op. d_theory op = t) (qualifying_ops s))"]
  by (simp_all add: iteration_order_def qualifying_kinds_def set_first_occurrences)

lemma pick_op_kind_two_stage:
  "pick_op_kind U R True g s =
     (if qualifying_ops s = [] then Inr (OP_UNDEFINED, g)
      else case pick_from_set R (qualifying_theories U s) g of
             Inl e \<Rightarrow> Inl e
           | Inr (theory, g1) \<Rightarrow> pick_from_set R (qualifying_kinds U s theory) g1)"
proof -
  define kinds where "kinds = collect_kinds (d_term_db s) (d_op_kinds s) []"
  have keys: "map fst kinds = first_occurrences (map d_theory (qualifying_ops s))"
    unfolding kinds_def by (rule collect_kinds_theories)
  have "kinds = [] \<longleftrightarrow> map fst kinds = []" by simp
  then have empty: "kinds = [] \<longleftrightarrow> qualifying_ops s = []"
    unfolding keys first_occurrences_Nil_iff by simp
  have entries: "map fst (kinds_entries U kinds) = qualifying_theories U s"
    by (simp add: kinds_entries_def qualifying_theories_def keys comp_def)
  have elements: "kinds_elements U kinds t = qualifying_kinds U s t" for t
    unfolding kinds_elements_def qualifying_kinds_def kinds_def collect_kinds_kinds ..
  show ?thesis
    by (simp add: pick_op_kind_def kinds_def [symmetric] empty pick_from_map_def entries elements
          cong: sum.case_cong prod.case_cong)
qed

lemma iteration_order_id: "iteration_order (\<lambda>xs. xs)"
  by (simp add: iteration_order_def)

lemma iteration_order_rev: "iteration_order rev"
  by (simp add: iteration_order_def)

lemma qualifying_ops_smgr_many: "qualifying_ops smgr_many = [op_not, op_apply, op_and]"
  by (simp add: qualifying_ops_def smgr_many_def new_SolverManager_def op_applicable_def
        op_not_def op_forall_def op_apply_def op_bv_add_def op_and_def stub_term_db_def)

lemma qualifying_ops_smgr_fresh: "qualifying_ops smgr_fresh = []"
  by (simp add: qualifying_ops_def smgr_fresh_def new_SolverManager_def)

lemma qualifying_theories_smgr_many:
  "qualifying_theories reverse_iteration smgr_many = [THEORY_UF, THEORY_BOOL]"
  "qualifying_theories insertion_iteration smgr_many = [THEORY_BOOL, THEORY_UF]"
  by (simp_all add: qualifying_theories_def qualifying_ops_smgr_many reverse_iteration_def
        insertion_iteration_def op_not_def op_apply_def op_and_def)

lemma qualifying_kinds_smgr_many:
  "qualifying_kinds reverse_iteration smgr_many THEORY_BOOL = [OP ''AND'', OP ''NOT'']"
  "qualifying_kinds insertion_iteration smgr_many THEORY_UF = [OP ''APPLY'']"
  by (simp_all add: qualifying_kinds_def qualifying_ops_smgr_many reverse_iteration_def
        insertion_iteration_def op_not_def op_apply_def op_and_def)

lemma counter_rng_draw: "pick_uint32 counter_rng g = (of_nat g, Suc g)"
  by (simp add: counter_rng_def)

lemma pick_op_kind_apply:
  "pick_op_kind insertion_iteration counter_rng True 1 smgr_apply = Inr (OP ''APPLY'', 3)"
  by (simp add: pick_op_kind_def pick_from_map_def pick_from_set_def kinds_at_def
        kinds_entries_def kinds_elements_def insertion_iteration_def
        op_has_terms_def smgr_apply_def new_SolverManager_def op_apply_def stub_term_db_def
        counter_rng_def Let_def)

text \<open>
  C6, as stated, fails: for an operator of negative arity \<open>pick_op_kind\<close> looks up only
  the sort kind of argument 0. The operator \<open>APPLY\<close> takes at least two arguments, a
  function and then bit-vectors; with a function term and no bit-vector term in the
  database, \<open>pick_op_kind\<close> returns it.
\<close>

theorem pick_op_kind_unchecked_argument:
  "pick_op_kind insertion_iteration counter_rng True 1 smgr_apply = Inr (OP ''APPLY'', 3)
   \<and> d_op_kinds smgr_apply = [(OP ''APPLY'', op_apply)]
   \<and> d_arity op_apply = - 2
   \<and> get_arg_sort_kind op_apply 1 = SORT_BV
   \<and> \<not> has_term (d_term_db smgr_apply) SORT_BV"
  using pick_op_kind_apply
  by (simp add: smgr_apply_def new_SolverManager_def op_apply_def stub_term_db_def)

text \<open>
  C6, amended. An operator qualifies if (a) it is not \<open>FORALL\<close> or \<open>EXISTS\<close>, or a
  variable and a quantifier body exist, and (b) for a non-negative arity, a term exists
  of the sort kind of each argument below the arity, and for a negative arity (a
  variable number of arguments), a term exists of the sort kind of argument 0, the sort
  kinds of its later arguments not being looked up. If no operator qualifies,
  \<open>pick_op_kind(with_terms = true)\<close> returns the undefined operator kind and draws
  nothing. Otherwise it first draws a theory uniformly: the theories of the qualifying
  operators are listed once each, in the iteration order of the map, and the theory
  returned by \<open>pick_from_map\<close> is the one at the position of a 32-bit draw modulo their
  number. It then draws a kind uniformly within that theory: the kinds of the
  qualifying operators of the theory are listed once each, in the iteration order of
  the set, and the kind returned is the one at the position of a second 32-bit draw
  modulo their number. The kind returned is the kind of a qualifying operator. This
  holds for every iteration order of the two containers.
\<close>

theorem pick_op_kind_with_terms:
  assumes "iteration_order (theory_order U)" and "iteration_order (op_kind_order U)"
  shows "pick_op_kind U R True g s =
           (if qualifying_ops s = [] then Inr (OP_UNDEFINED, g)
            else let theories = qualifying_theories U s;
                     (r1, g1) = pick_uint32 R g;
                     theory = theories ! (unat r1 mod length theories);
                     kinds = qualifying_kinds U s theory;
                     (r2, g2) = pick_uint32 R g1
                 in Inr (kinds ! (unat r2 mod length kinds), g2))
         \<and> distinct (qualifying_theories U s)
         \<and> set (qualifying_theories U s) = d_theory ` set (qualifying_ops s)
         \<and> (\<forall>theory. distinct (qualifying_kinds U s theory)
               \<and> set (qualifying_kinds U s theory)
                   = d_kind ` {op \<in> set (qualifying_ops s). d_theory op = theory})
         \<and> (qualifying_ops s \<noteq> [] \<longrightarrow>
               (\<exists>op \<in> set (qualifying_ops s). \<exists>g'.
                  pick_op_kind U R True g s = Inr (d_kind op, g')))"
proof -
  note ts = qualifying_theories_set [OF assms(1), of s]
  note ks = qualifying_kinds_set [OF assms(2), of s]
  define theories where "theories = qualifying_theories U s"
  define drawn where "drawn = theories ! (unat (fst (pick_uint32 R g)) mod length theories)"
  define g1 where "g1 = snd (pick_uint32 R g)"
  define kinds where "kinds = qualifying_kinds U s drawn"
  define kind where "kind = kinds ! (unat (fst (pick_uint32 R g1)) mod length kinds)"
  have eq: "pick_op_kind U R True g s = Inr (kind, snd (pick_uint32 R g1))"
    and mem: "kind \<in> d_kind ` set (qualifying_ops s)"
    if ne: "qualifying_ops s \<noteq> []"
  proof -
    from ne ts(2) have "set theories \<noteq> {}"
      unfolding theories_def by simp
    then have tne: "theories \<noteq> []"
      by simp
    then have "drawn \<in> set theories"
      unfolding drawn_def by simp
    then have "drawn \<in> d_theory ` set (qualifying_ops s)"
      unfolding theories_def ts(2) .
    then have "set kinds \<noteq> {}"
      unfolding kinds_def ks(2) by blast
    then have kne: "kinds \<noteq> []"
      by simp
    then have "kind \<in> set kinds"
      unfolding kind_def by simp
    then show "kind \<in> d_kind ` set (qualifying_ops s)"
      unfolding kinds_def ks(2) by blast
    from ne tne kne show "pick_op_kind U R True g s = Inr (kind, snd (pick_uint32 R g1))"
      unfolding pick_op_kind_two_stage
      by (simp add: pick_from_set_def theories_def [symmetric] case_prod_beta
            drawn_def [symmetric] g1_def [symmetric] kinds_def [symmetric] kind_def)
  qed
  have first: "pick_op_kind U R True g s =
           (if qualifying_ops s = [] then Inr (OP_UNDEFINED, g)
            else let theories = qualifying_theories U s;
                     (r1, g1) = pick_uint32 R g;
                     theory = theories ! (unat r1 mod length theories);
                     kinds = qualifying_kinds U s theory;
                     (r2, g2) = pick_uint32 R g1
                 in Inr (kinds ! (unat r2 mod length kinds), g2))"
  proof (cases "qualifying_ops s = []")
    case True
    then show ?thesis
      by (simp add: pick_op_kind_two_stage)
  next
    case False
    from eq [OF False] False show ?thesis
      by (simp add: Let_def case_prod_beta kind_def kinds_def drawn_def theories_def g1_def)
  qed
  have last: "\<exists>op \<in> set (qualifying_ops s). \<exists>g'. pick_op_kind U R True g s = Inr (d_kind op, g')"
    if ne: "qualifying_ops s \<noteq> []"
    using eq [OF ne] mem [OF ne] by auto
  from first ts ks last show ?thesis
    by blast
qed

theorem pick_op_kind_with_terms_witness:
  "pick_op_kind reverse_iteration counter_rng True 1 smgr_many = Inr (OP ''AND'', 3)
   \<and> pick_op_kind insertion_iteration counter_rng True 1 smgr_many = Inr (OP ''APPLY'', 3)
   \<and> pick_op_kind reverse_iteration counter_rng True 1 smgr_fresh = Inr (OP_UNDEFINED, 1)"
proof -
  have r: "iteration_order (theory_order reverse_iteration)"
      "iteration_order (op_kind_order reverse_iteration)"
    by (simp_all add: reverse_iteration_def iteration_order_rev)
  have i: "iteration_order (theory_order insertion_iteration)"
      "iteration_order (op_kind_order insertion_iteration)"
    by (simp_all add: insertion_iteration_def iteration_order_id)
  from pick_op_kind_with_terms [OF r, of counter_rng 1 smgr_many, THEN conjunct1]
  have "pick_op_kind reverse_iteration counter_rng True 1 smgr_many = Inr (OP ''AND'', 3)"
    by (simp add: qualifying_ops_smgr_many qualifying_theories_smgr_many
          qualifying_kinds_smgr_many counter_rng_draw numeral_2_eq_2 [symmetric]
          numeral_3_eq_3 [symmetric])
  moreover
  from pick_op_kind_with_terms [OF i, of counter_rng 1 smgr_many, THEN conjunct1]
  have "pick_op_kind insertion_iteration counter_rng True 1 smgr_many = Inr (OP ''APPLY'', 3)"
    by (simp add: qualifying_ops_smgr_many qualifying_theories_smgr_many
          qualifying_kinds_smgr_many counter_rng_draw numeral_2_eq_2 [symmetric]
          numeral_3_eq_3 [symmetric])
  moreover
  from pick_op_kind_with_terms [OF r, of counter_rng 1 smgr_fresh, THEN conjunct1]
  have "pick_op_kind reverse_iteration counter_rng True 1 smgr_fresh = Inr (OP_UNDEFINED, 1)"
    by (simp add: qualifying_ops_smgr_fresh)
  ultimately show ?thesis
    by simp
qed

section \<open>Properties of the command line\<close>

subsection \<open>One turn of the loop of \<open>parse_options\<close>\<close>

text \<open>
  A turn takes at most the argument after the option, looks at nothing behind it, and
  changes the disabled theories only for one of the switches \<open>--no-...\<close>.
\<close>

lemma with_next_arg_Cons [simp]: "with_next_arg arg (a # rest) f = f a"
  by (simp add: with_next_arg_def next_arg_def)

lemma with_next_arg_Nil [simp]: "with_next_arg arg [] f = Inl (check_next_arg arg)"
  by (simp add: with_next_arg_def next_arg_def)

lemma case_option_same [simp]: "(case x of None \<Rightarrow> c | Some y \<Rightarrow> c) = c"
  by (cases x) simp_all

lemma case_sum_same [simp]: "(case x of Inl e \<Rightarrow> c | Inr y \<Rightarrow> c) = c"
  by (cases x) simp_all

lemma taken_simps [simp]: "taken (Inl e) = 0" "taken (Inr (n, og)) = n"
  by (simp_all add: taken_def)

lemmas distribs = if_distrib option.case_distrib sum.case_distrib

lemmas congs = if_cong option.case_cong sum.case_cong

lemma taken_Nil: "taken (parse_arg E arg [] og) = 0"
  by (simp add: parse_arg_def Let_def distribs [of taken] cong: congs)

lemma taken_Cons: "taken (parse_arg E arg (a # rest) og) \<le> 1"
  by (simp add: parse_arg_def Let_def distribs [of taken] distribs [of "\<lambda>n. n \<le> Suc 0"]
        cong: congs)

lemma parse_arg_taken:
  assumes "parse_arg E arg rest og = Inr (n, og')"
  shows "n \<le> length rest"
proof (cases rest)
  case Nil
  with assms taken_Nil [of E arg og] show ?thesis by simp
next
  case (Cons a list)
  with assms taken_Cons [of E arg a list og] show ?thesis by simp
qed

lemma parse_arg_last_aux:
  assumes "arg \<noteq> ''--smt2''" and "arg \<noteq> ''--fuzz-opts''"
  shows "isl (parse_arg E arg [] og) \<or> parse_arg E arg (y # ys) og = parse_arg E arg [] og"
  using assms
  by (simp add: parse_arg_def Let_def distribs [of isl] cong: congs)

lemma parse_arg_last:
  assumes "parse_arg E arg [] og = Inr (n, og')" and "arg \<noteq> ''--smt2''" and "arg \<noteq> ''--fuzz-opts''"
  shows "n = 0" and "parse_arg E arg ys og = Inr (0, og')"
proof -
  from parse_arg_taken [OF assms(1)] show n: "n = 0" by simp
  show "parse_arg E arg ys og = Inr (0, og')"
  proof (cases ys)
    case Nil
    with assms(1) n show ?thesis by simp
  next
    case (Cons y ys')
    from parse_arg_last_aux [OF assms(2,3), of E og y ys'] assms(1) n Cons show ?thesis
      by simp
  qed
qed

lemma parse_arg_rest_cong:
  "rest \<noteq> [] \<Longrightarrow> parse_arg E arg (rest @ ys) og = parse_arg E arg rest og"
  by (cases rest) (simp_all add: parse_arg_def cong: if_cong)

lemma parse_args_append:
  assumes "parse_args E xs og = Inr og1"
    and "xs = [] \<or> \<not> takes_next_unless_dash (last xs)"
  shows "parse_args E (xs @ ys) og = parse_args E ys og1"
  using assms
proof (induction E xs og rule: parse_args.induct)
  case (1 E og)
  then show ?case by simp
next
  case (2 E arg rest og)
  from "2.prems"(1) obtain n og' where
    step: "parse_arg E arg rest og = Inr (n, og')"
    and tail: "parse_args E (drop n rest) og' = Inr og1"
    by (auto split: sum.splits)
  from parse_arg_taken [OF step] have n: "n \<le> length rest" .
  show ?case
  proof (cases "rest = []")
    case True
    with "2.prems"(2) have "arg \<noteq> ''--smt2''" "arg \<noteq> ''--fuzz-opts''"
      by (simp_all add: takes_next_unless_dash_def)
    from parse_arg_last [OF step [unfolded True] this] tail True n show ?thesis
      by simp
  next
    case False
    with step have step': "parse_arg E arg (rest @ ys) og = Inr (n, og')"
      by (simp add: parse_arg_rest_cong)
    have last: "drop n rest = [] \<or> \<not> takes_next_unless_dash (last (drop n rest))"
      using "2.prems"(2) False by (cases "drop n rest = []") simp_all
    from "2.IH" [OF step refl tail last] n step' show ?thesis
      by simp
  qed
qed

lemma parse_arg_taken_at_most_one:
  assumes "parse_arg E arg rest og = Inr (n, og')"
  shows "n \<le> 1"
proof (cases rest)
  case Nil
  with assms taken_Nil [of E arg og] show ?thesis by simp
next
  case (Cons a list)
  with assms taken_Cons [of E arg a list og] show ?thesis by simp
qed



lemma disabled_after_simps [simp]:
  "disabled_after options (Inl e) = disabled_theories options"
  "disabled_after options (Inr (n, options', g)) = disabled_theories options'"
  by (simp_all add: disabled_after_def)

lemma parse_theory_arg_disabled:
  assumes "arg \<notin> no_theory_flags"
  shows "(case parse_theory_arg arg options of Inl _ \<Rightarrow> disabled_theories options
          | Inr options' \<Rightarrow> disabled_theories options') = disabled_theories options"
  using assms
  by (simp add: parse_theory_arg_def no_theory_flags_def)

lemma parse_arg_disabled:
  assumes "arg \<notin> no_theory_flags"
  shows "disabled_after options (parse_arg E arg rest (options, g)) = disabled_theories options"
proof -
  have "disabled_after options (case parse_theory_arg arg options of Inl e \<Rightarrow> Inl e
          | Inr options' \<Rightarrow> Inr (0, options', g)) = disabled_theories options"
    using parse_theory_arg_disabled [OF assms, of options]
    by (cases "parse_theory_arg arg options") simp_all
  then show ?thesis
    by (cases rest)
       (simp_all add: parse_arg_def Let_def distribs [of "disabled_after options"] cong: congs)
qed

lemma parse_args_disabled:
  assumes "parse_args E args og = Inr og'" and "set args \<inter> no_theory_flags = {}"
  shows "disabled_theories (fst og') = disabled_theories (fst og)"
  using assms
proof (induction E args og rule: parse_args.induct)
  case (1 E og)
  then show ?case by simp
next
  case (2 E arg rest og)
  obtain options g where og: "og = (options, g)" by (cases og)
  from "2.prems"(1) obtain n og1 where
    step: "parse_arg E arg rest og = Inr (n, og1)"
    and tail: "parse_args E (drop n rest) og1 = Inr og'"
    by (auto split: sum.splits)
  from "2.prems"(2) have arg: "arg \<notin> no_theory_flags" by simp
  from "2.prems"(2) have "set (drop n rest) \<inter> no_theory_flags = {}"
    using set_drop_subset [of n rest] by auto
  from "2.IH" [OF step refl tail this]
  have "disabled_theories (fst og') = disabled_theories (fst og1)" .
  also from parse_arg_disabled [OF arg, of options E rest g] step og
  have "disabled_theories (fst og1) = disabled_theories (fst og)"
    by (cases og1) simp
  finally show ?case .
qed

lemma recorded_args_subseq: "subseq (recorded_args xs) xs"
proof (induction xs rule: recorded_args.induct)
  case 1
  show ?case by simp
next
  case (2 a rest)
  show ?case
  proof (cases "a \<in> {''-s'', ''--seed'', ''-a'', ''--api-trace''}")
    case True
    from "2.IH"(1) [OF True] have "subseq (recorded_args (drop 1 rest)) (drop 1 rest)" .
    moreover have "subseq (drop 1 rest) rest"
      by (rule suffix_imp_subseq) (rule suffix_drop)
    ultimately have "subseq (recorded_args (drop 1 rest)) rest"
      by (rule subseq_order.trans)
    then have "subseq (recorded_args (drop 1 rest)) (a # rest)"
      by (rule list_emb_Cons)
    with True show ?thesis
      by (simp only: recorded_args.simps if_True)
  next
    case False
    show ?thesis
    proof (cases "a \<in> {''-d'', ''--dd''}")
      case True
      from "2.IH"(2) [OF False True] have "subseq (recorded_args rest) (a # rest)"
        by (rule list_emb_Cons)
      with False True show ?thesis
        by (simp only: recorded_args.simps if_True if_False)
    next
      case nd: False
      from "2.IH"(3) [OF False nd] have "subseq (a # recorded_args rest) (a # rest)"
        by (rule subseq_Cons2)
      with False nd show ?thesis
        by (simp only: recorded_args.simps if_False)
    qed
  qed
qed

lemma recorded_args_no_flags:
  "set (recorded_args xs) \<inter> {''-s'', ''--seed'', ''-a'', ''--api-trace'', ''-d'', ''--dd''} = {}"
  by (induction xs rule: recorded_args.induct) auto

lemma record_cmd_line_recorded_args:
  "record_cmd_line args i ss = Inr ss' \<Longrightarrow>
     ss' = ss @ concat (map (\<lambda>a. '' '' @ a) (recorded_args (drop i args)))
     \<and> ''-u'' \<notin> set (recorded_args (drop i args))
     \<and> ''--untrace'' \<notin> set (recorded_args (drop i args))"
proof (induction args i ss rule: record_cmd_line.induct)
  case (1 args i ss)
  show ?case
  proof (cases "i < length args")
    case False
    with "1.prems" show ?thesis
      by (simp add: record_cmd_line.simps [of args i ss])
  next
    case True
    then have d: "drop i args = args ! i # drop (Suc i) args"
      by (simp add: Cons_nth_drop_Suc)
    have d2: "drop (i + 2) args = drop 1 (drop (Suc i) args)"
      by simp
    from True "1.prems" have nu: "args ! i \<noteq> ''-u''" "args ! i \<noteq> ''--untrace''"
      by (auto simp: record_cmd_line.simps [of args i ss] split: if_splits)
    consider (skip2) "args ! i = ''-s'' \<or> args ! i = ''--seed'' \<or> args ! i = ''-a''
                      \<or> args ! i = ''--api-trace''"
      | (skip1) "\<not> (args ! i = ''-s'' \<or> args ! i = ''--seed'' \<or> args ! i = ''-a''
                      \<or> args ! i = ''--api-trace'')" "args ! i = ''-d'' \<or> args ! i = ''--dd''"
      | (keep) "\<not> (args ! i = ''-s'' \<or> args ! i = ''--seed'' \<or> args ! i = ''-a''
                      \<or> args ! i = ''--api-trace'')" "\<not> (args ! i = ''-d'' \<or> args ! i = ''--dd'')"
      by blast
    then show ?thesis
    proof cases
      case skip2
      with True nu "1.prems" have "record_cmd_line args (i + 2) ss = Inr ss'"
        by (simp add: record_cmd_line.simps [of args i ss])
      from "1.IH"(1) [OF True nu skip2 this] skip2 show ?thesis
        unfolding d d2 by auto
    next
      case skip1
      with True nu "1.prems" have "record_cmd_line args (i + 1) ss = Inr ss'"
        by (simp add: record_cmd_line.simps [of args i ss])
      from "1.IH"(2) [OF True nu skip1 this] skip1 show ?thesis
        unfolding d by auto
    next
      case keep
      with True nu "1.prems" have "record_cmd_line args (i + 1) (ss @ '' '' @ args ! i) = Inr ss'"
        by (simp add: record_cmd_line.simps [of args i ss])
      from "1.IH"(3) [OF True nu keep this] keep nu show ?thesis
        unfolding d by auto
    qed
  qed
qed

lemma parse_arg_seed_api_trace:
  assumes "arg \<in> {''-s'', ''--seed'', ''-a'', ''--api-trace''}"
    and "parse_arg E arg rest og = Inr (n, og')"
  shows "n = 1"
proof -
  from assms(1) have "arg = ''-s'' \<or> arg = ''--seed'' \<or> arg = ''-a'' \<or> arg = ''--api-trace''"
    by simp
  then have "isl (parse_arg E arg rest og) \<or> taken (parse_arg E arg rest og) = 1"
    by (elim disjE; cases rest) (simp_all add: parse_arg_def Let_def)
  with assms(2) show ?thesis
    by simp
qed

lemma parse_arg_dd:
  assumes "arg \<in> {''-d'', ''--dd''}" and "parse_arg E arg rest og = Inr (n, og')"
  shows "n = 0"
proof -
  from assms(1) have "arg = ''-d'' \<or> arg = ''--dd''"
    by simp
  then have "taken (parse_arg E arg rest og) = 0"
    by (elim disjE) (simp_all add: parse_arg_def Let_def)
  with assms(2) show ?thesis
    by simp
qed

lemma recorded_args_kept_args:
  assumes "parse_args E args og = Inr r"
    and "\<not> flag_spelled_value E args og"
    and "''-u'' \<notin> set args" and "''--untrace'' \<notin> set args"
  shows "recorded_args args = kept_args E args og"
  using assms
proof (induction E args og rule: parse_args.induct)
  case (1 E og)
  show ?case by simp
next
  case (2 E arg rest og)
  from "2.prems"(1) obtain n og1 where
    step: "parse_arg E arg rest og = Inr (n, og1)"
    and tail: "parse_args E (drop n rest) og1 = Inr r"
    by (auto split: sum.splits)
  from "2.prems"(2) step have nf: "\<not> flag_spelled_value E (drop n rest) og1"
    by simp
  from "2.prems"(3,4) have nu: "''-u'' \<notin> set (drop n rest)" "''--untrace'' \<notin> set (drop n rest)"
    by (auto dest: in_set_dropD)
  from "2.IH" [OF step refl tail nf nu]
  have IH: "recorded_args (drop n rest) = kept_args E (drop n rest) og1" .
  from step have n: "n \<le> 1"
    by (rule parse_arg_taken_at_most_one)
  from parse_arg_taken [OF step] have len: "n \<le> length rest" .
  from "2.prems"(3,4) have arg: "arg \<noteq> ''-u''" "arg \<noteq> ''--untrace''"
    by auto
  show ?case
  proof (cases "arg \<in> {''-s'', ''--seed'', ''-a'', ''--api-trace''}")
    case True
    from parse_arg_seed_api_trace [OF True step] have "n = 1" .
    moreover from True
    have "arg \<in> {''-u'', ''--untrace'', ''-s'', ''--seed'', ''-a'', ''--api-trace'',
                    ''-d'', ''--dd''}"
      by auto
    ultimately show ?thesis
      using True step IH by simp
  next
    case ns: False
    show ?thesis
    proof (cases "arg \<in> {''-d'', ''--dd''}")
      case True
      from parse_arg_dd [OF True step] have "n = 0" .
      moreover from True
      have "arg \<in> {''-u'', ''--untrace'', ''-s'', ''--seed'', ''-a'', ''--api-trace'',
                      ''-d'', ''--dd''}"
        by auto
      ultimately show ?thesis
        using ns True step IH by simp
    next
      case nd: False
      from ns nd arg
      have other: "arg \<notin> {''-u'', ''--untrace'', ''-s'', ''--seed'', ''-a'', ''--api-trace'',
                              ''-d'', ''--dd''}"
        by simp
      show ?thesis
      proof (cases "n = 0")
        case True
        with ns nd other step IH show ?thesis
          by simp
      next
        case False
        with n len obtain v rest' where rest: "rest = v # rest'" and n1: "n = 1"
          by (cases rest) auto
        from "2.prems"(2) step other rest n1
        have v: "v \<notin> {''-s'', ''--seed'', ''-a'', ''--api-trace'', ''-d'', ''--dd''}"
          by auto
        from IH rest n1 have "recorded_args rest' = kept_args E rest' og1"
          by simp
        with ns nd other step rest n1 v show ?thesis
          by simp
      qed
    qed
  qed
qed

lemma kept_args_flag_spelled:
  assumes "flag_spelled_value E args og"
  shows "\<exists>x. x \<in> set (kept_args E args og)
           \<and> x \<in> {''-s'', ''--seed'', ''-a'', ''--api-trace'', ''-d'', ''--dd''}"
  using assms
proof (induction E args og rule: kept_args.induct)
  case (1 E og)
  then show ?case by simp
next
  case (2 E arg rest og)
  from "2.prems" obtain n og1 where step: "parse_arg E arg rest og = Inr (n, og1)"
    by (auto split: sum.splits)
  show ?case
  proof (cases "flag_spelled_value E (drop n rest) og1")
    case True
    from "2.IH" [OF step refl True] obtain x where
      x: "x \<in> set (kept_args E (drop n rest) og1)"
      "x \<in> {''-s'', ''--seed'', ''-a'', ''--api-trace'', ''-d'', ''--dd''}"
      by (elim exE conjE)
    from x(1) step have "x \<in> set (kept_args E (arg # rest) og)"
      by simp
    with x(2) show ?thesis
      by (intro exI conjI)
  next
    case False
    with "2.prems" step
    have other: "arg \<notin> {''-u'', ''--untrace'', ''-s'', ''--seed'', ''-a'', ''--api-trace'',
                           ''-d'', ''--dd''}"
      and v: "set (take n rest)
                \<inter> {''-s'', ''--seed'', ''-a'', ''--api-trace'', ''-d'', ''--dd''} \<noteq> {}"
      by simp_all
    from v have "\<exists>x. x \<in> set (take n rest)
                  \<inter> {''-s'', ''--seed'', ''-a'', ''--api-trace'', ''-d'', ''--dd''}"
      by (rule ex_in_conv [THEN iffD2])
    then obtain x where x: "x \<in> set (take n rest)"
      "x \<in> {''-s'', ''--seed'', ''-a'', ''--api-trace'', ''-d'', ''--dd''}"
      by (elim exE IntE)
    from other have k: "kept_args E (arg # rest) og
                          = arg # take n rest @ kept_args E (drop n rest) og1"
      using step by simp
    from x(1) have "x \<in> set (kept_args E (arg # rest) og)"
      unfolding k by simp
    with x(2) show ?thesis
      by (intro exI conjI)
  qed
qed

lemma recorded_args_differ:
  assumes "flag_spelled_value E args og"
  shows "recorded_args args \<noteq> kept_args E args og"
proof
  assume eq: "recorded_args args = kept_args E args og"
  from kept_args_flag_spelled [OF assms] obtain x where
    x: "x \<in> set (kept_args E args og)"
    "x \<in> {''-s'', ''--seed'', ''-a'', ''--api-trace'', ''-d'', ''--dd''}"
    by (elim exE conjE)
  from x(1) eq have "x \<in> set (recorded_args args)"
    by simp
  from IntI [OF this x(2)] show False
    unfolding recorded_args_no_flags by (rule emptyE)
qed

lemma get_options_loop_frame:
  "get_options_loop xs options args = Inr (options1, args1) \<Longrightarrow>
     \<exists>f. options1 = options\<lparr>untrace_file_name := f\<rparr>"
proof (induction xs options args rule: get_options_loop.induct)
  case (1 options args)
  then have "options1 = options\<lparr>untrace_file_name := untrace_file_name options\<rparr>" by simp
  then show ?case by blast
next
  case (2 arg rest options args)
  show ?case
  proof (cases "arg = ''-u'' \<or> arg = ''--untrace''")
    case True
    with "2.prems" obtain fname rest' where rest: "rest = fname # rest'"
      by (cases rest) (auto split: if_splits)
    with True "2.prems" have
      "get_options_loop rest' (options\<lparr>untrace_file_name := fname\<rparr>) args = Inr (options1, args1)"
      by simp
    from "2.IH"(1) [OF True rest this] show ?thesis
      by auto
  next
    case False
    with "2.prems" have "get_options_loop rest options (args @ [arg]) = Inr (options1, args1)"
      by simp
    from "2.IH"(2) [OF False this] show ?thesis .
  qed
qed

lemma get_options_frame:
  assumes "get_options E options argv = Inr (options1, args)"
  shows "\<exists>f. options1 = options\<lparr>untrace_file_name := f\<rparr>"
proof -
  from assms obtain args0 where "get_options_loop (drop 1 argv) options [] = Inr (options1, args0)"
    by (auto simp: get_options_def Let_def split: sum.splits if_splits option.splits)
  then show ?thesis by (rule get_options_loop_frame)
qed

subsection \<open>The example command lines\<close>

text \<open>
  \<open>murxla -s 1f -a run.trace -d -u run.trace\<close>, where \<open>run.trace\<close> starts with the line
  \<open>set-murxla-options --cvc5 -t 5\<close>.
\<close>

lemma ex_split: "split example_env ''set-murxla-options --cvc5 -t 5'' CHR '' ''
   = [''set-murxla-options'', ''--cvc5'', ''-t'', ''5'']"
  by (simp add: example_env_def)

lemma ex_first_line:
  "first_line example_env ''run.trace'' = Some ''set-murxla-options --cvc5 -t 5''"
  by (simp add: example_env_def)

lemma ex_get_options_loop:
  "get_options_loop (drop 1 ex_argv) default_Options []
     = Inr (ex_options1, [''-s'', ''1f'', ''-a'', ''run.trace'', ''-d''])"
  by (simp add: ex_argv_def ex_options1_def)

lemma ex_get_options: "get_options example_env default_Options ex_argv = Inr (ex_options1, ex_args)"
  using ex_get_options_loop
  by (simp add: get_options_def ex_options1_def ex_first_line ex_split ex_args_def)

lemma ex_parse_tokens:
  "parse_args example_env [''--cvc5'', ''-t'', ''5''] (ex_options1, default_Globals)
     = Inr (ex_options2, default_Globals)"
  by (simp add: parse_arg_def check_solver_kind_def SOLVER_CVC5_def SOLVER_BTOR_def
        SOLVER_BZLA_def example_env_def ex_options2_def)

lemma ex_parse_args:
  "parse_args example_env ex_args (ex_options1, default_Globals)
     = Inr (ex_options2\<lparr>seed := 31, is_seeded := True, api_trace_file_name := ''run.trace'',
                         dd := True\<rparr>, default_Globals)"
  by (simp add: ex_args_def parse_arg_def check_solver_kind_def SOLVER_CVC5_def SOLVER_BTOR_def
        SOLVER_BZLA_def isxdigit_def example_env_def ex_options2_def)

lemma ex_record: "record_cmd_line ex_args 0 ''set-murxla-options'' = Inr ''set-murxla-options --cvc5 -t 5''"
  by (simp add: record_cmd_line.simps ex_args_def)

lemma ex_parse_options:
  "parse_options example_env default_Options default_Globals ex_argv
     = Inr (ex_options, default_Globals)"
  by (simp add: parse_options_def ex_get_options ex_parse_args ex_record)
    (simp add: ex_options_def ex_options2_def ex_options1_def SOLVER_SMT2_def default_Options_def)

lemma ex_not_flag_spelled:
  "\<not> flag_spelled_value example_env ex_args (ex_options1, default_Globals)"
  by (simp add: ex_args_def parse_arg_def check_solver_kind_def SOLVER_CVC5_def
        SOLVER_BTOR_def SOLVER_BZLA_def example_env_def isxdigit_def)

lemma ex_kept_args:
  "kept_args example_env ex_args (ex_options1, default_Globals) = [''--cvc5'', ''-t'', ''5'']"
  by (simp add: ex_args_def parse_arg_def check_solver_kind_def SOLVER_CVC5_def
        SOLVER_BTOR_def SOLVER_BZLA_def example_env_def isxdigit_def)

lemma ex_initialize_statistics: "initialize_statistics example_env = None"
  by (simp add: initialize_statistics_def example_env_def)

lemma ex_create_tmp_directory:
  "create_tmp_directory example_env (tmp_dir ex_options) = Some ''/tmp/murxla-1''"
  by (simp add: example_env_def ex_options_def ex_options2_def ex_options1_def default_Options_def)

lemma ex_file_names:
  "api_trace_file_name ex_options = ''run.trace''" "untrace_file_name ex_options = ''run.trace''"
  by (simp_all add: ex_options_def ex_options2_def ex_options1_def)





text \<open>
  \<open>murxla solver.sh -u smt2.trace\<close>, where \<open>smt2.trace\<close> starts with the line
  \<open>set-murxla-options --smt2\<close>: the last option of the trace takes the first argument of
  the command line as its value.
\<close>

lemma ex_smt2_takes_command_line_argument:
  "get_options example_env default_Options [''murxla'', ''solver.sh'', ''-u'', ''smt2.trace'']
     = Inr (default_Options\<lparr>untrace_file_name := ''smt2.trace''\<rparr>, [''--smt2'', ''solver.sh''])
   \<and> parse_first example_env 1 [''--smt2'', ''solver.sh'']
         (default_Options\<lparr>untrace_file_name := ''smt2.trace''\<rparr>, default_Globals)
       = Inr ([], default_Options\<lparr>untrace_file_name := ''smt2.trace'',
                                   solver_binary := ''solver.sh'', solver := ''smt2''\<rparr>,
              default_Globals)"
  by (simp add: get_options_def example_env_def parse_arg_def first_not_dash_def SOLVER_SMT2_def)
    (simp add: default_Options_def)

text \<open>
  \<open>murxla -p -a --cvc5 -v\<close>: the profile is the file \<open>-a\<close> and the solver is cvc5; the
  recording loop passes over \<open>-a\<close> and \<open>--cvc5\<close>. Read back, the recorded line gives the
  profile \<open>-v\<close> and no solver. Likewise \<open>--dd-match-err -d --cvc5\<close> loses the string to
  match.
\<close>

lemma ex_value_get_options:
  "get_options example_env default_Options ex_value_argv
     = Inr (default_Options, ex_value_args)"
  by (simp add: get_options_def ex_value_argv_def ex_value_args_def) (simp add: default_Options_def)

lemma ex_value_parse_args:
  "parse_args example_env ex_value_args (default_Options, default_Globals)
     = Inr (default_Options\<lparr>verbosity := 1, solver := ''cvc5'',
                              solver_profile_filename := ''-a''\<rparr>, default_Globals)"
  by (simp add: ex_value_args_def parse_arg_def check_solver_kind_def SOLVER_CVC5_def
        SOLVER_BTOR_def SOLVER_BZLA_def example_env_def)
    (simp add: default_Options_def)

lemma ex_value_parse_options:
  "parse_options example_env default_Options default_Globals ex_value_argv
     = Inr (ex_value_options, default_Globals)"
proof -
  have rec: "record_cmd_line ex_value_args 0 ''set-murxla-options''
               = Inr ''set-murxla-options -p -v''"
    by (simp add: record_cmd_line.simps ex_value_args_def)
  show ?thesis
    by (simp add: parse_options_def ex_value_get_options ex_value_parse_args rec)
      (simp add: ex_value_options_def SOLVER_SMT2_def default_Options_def)
qed

lemma ex_value_kept_args:
  "kept_args example_env ex_value_args (default_Options, default_Globals)
     = [''-p'', ''-a'', ''--cvc5'', ''-v'']"
  by (simp add: ex_value_args_def parse_arg_def check_solver_kind_def SOLVER_CVC5_def
        SOLVER_BTOR_def SOLVER_BZLA_def example_env_def)

lemma ex_value_flag_spelled:
  "flag_spelled_value example_env ex_value_args (default_Options, default_Globals)"
  by (simp add: ex_value_args_def parse_arg_def)

lemma ex_value_replay:
  "parse_args example_env [''-p'', ''-v''] (default_Options, default_Globals)
     = Inr (default_Options\<lparr>solver_profile_filename := ''-v''\<rparr>, default_Globals)"
  by (simp add: parse_arg_def)

lemma ex_value_dd_match_err:
  "parse_args example_env [''--dd-match-err'', ''-d'', ''--cvc5''] (default_Options, default_Globals)
     = Inr (default_Options\<lparr>dd_match_err := ''-d'', solver := ''cvc5''\<rparr>, default_Globals)
   \<and> record_cmd_line [''--dd-match-err'', ''-d'', ''--cvc5''] 0 ''set-murxla-options''
       = Inr ''set-murxla-options --dd-match-err --cvc5''"
  by (simp add: parse_arg_def check_solver_kind_def SOLVER_CVC5_def SOLVER_BTOR_def
        SOLVER_BZLA_def example_env_def record_cmd_line.simps)

subsection \<open>The options of the replayed trace\<close>



subsection \<open>The recorded command line\<close>

text \<open>
  Claim C5. The recording loop goes by the spelling of the argument at its index, not by
  the options that \<open>parse_options\<close> has read. For every command line that
  \<open>parse_options\<close> parses, the recorded line \<open>cmd_line_trace\<close> is \<open>set-murxla-options\<close>
  followed by the arguments of \<open>recorded_args\<close>, each after a space: they are in the
  order of the command line and none of them is \<open>-u\<close>, \<open>--untrace\<close>, \<open>-s\<close>, \<open>--seed\<close>, \<open>-a\<close>,
  \<open>--api-trace\<close>, \<open>-d\<close> or \<open>--dd\<close>. They are the arguments of which C5 speaks
  (\<open>kept_args\<close>) when no option that stays takes a value spelled \<open>-s\<close>, \<open>--seed\<close>, \<open>-a\<close>,
  \<open>--api-trace\<close>, \<open>-d\<close> or \<open>--dd\<close>, and they are not when one does: such a value is passed
  over, after \<open>-s\<close>, \<open>--seed\<close>, \<open>-a\<close> and \<open>--api-trace\<close> with the argument behind it. For
  \<open>murxla -p -a --cvc5 -v\<close> the line is \<open>set-murxla-options -p -v\<close>, where C5 has
  \<open>-p -a --cvc5 -v\<close>.
\<close>

theorem parse_options_records_by_spelling:
  assumes "parse_options E options g argv = Inr (options', g')"
    and "get_options E options argv = Inr (options1, args)"
  shows "cmd_line_trace options'
           = ''set-murxla-options'' @ concat (map (\<lambda>a. '' '' @ a) (recorded_args args))
         \<and> subseq (recorded_args args) args
         \<and> set (recorded_args args)
             \<inter> {''-u'', ''--untrace'', ''-s'', ''--seed'', ''-a'', ''--api-trace'', ''-d'', ''--dd''}
             = {}
         \<and> (flag_spelled_value E args (options1, g)
               \<longrightarrow> recorded_args args \<noteq> kept_args E args (options1, g))
         \<and> (\<not> flag_spelled_value E args (options1, g)
               \<and> ''-u'' \<notin> set args \<and> ''--untrace'' \<notin> set args
               \<longrightarrow> recorded_args args = kept_args E args (options1, g))"
proof -
  from assms obtain r ss where
    parse: "parse_args E args (options1, g) = Inr r"
    and rec: "record_cmd_line args 0 ''set-murxla-options'' = Inr ss"
    and trace: "cmd_line_trace options' = ss"
    by (auto simp: parse_options_def Let_def split: sum.splits prod.splits)
  from record_cmd_line_recorded_args [OF rec] recorded_args_no_flags [of args] trace
  have line: "cmd_line_trace options'
          = ''set-murxla-options'' @ concat (map (\<lambda>a. '' '' @ a) (recorded_args args))"
    and none: "set (recorded_args args)
           \<inter> {''-u'', ''--untrace'', ''-s'', ''--seed'', ''-a'', ''--api-trace'', ''-d'', ''--dd''}
         = {}"
    by auto
  show ?thesis
  proof (intro conjI impI)
    show "cmd_line_trace options'
            = ''set-murxla-options'' @ concat (map (\<lambda>a. '' '' @ a) (recorded_args args))"
      by (rule line)
    show "subseq (recorded_args args) args"
      by (rule recorded_args_subseq)
    show "set (recorded_args args)
           \<inter> {''-u'', ''--untrace'', ''-s'', ''--seed'', ''-a'', ''--api-trace'', ''-d'', ''--dd''}
         = {}"
      by (rule none)
  next
    assume "flag_spelled_value E args (options1, g)"
    then show "recorded_args args \<noteq> kept_args E args (options1, g)"
      by (rule recorded_args_differ)
  next
    assume h: "\<not> flag_spelled_value E args (options1, g)
              \<and> ''-u'' \<notin> set args \<and> ''--untrace'' \<notin> set args"
    from h have "\<not> flag_spelled_value E args (options1, g)"
      by (rule conjunct1)
    moreover from h have "''-u'' \<notin> set args"
      by (rule conjunct2 [THEN conjunct1])
    moreover from h have "''--untrace'' \<notin> set args"
      by (rule conjunct2 [THEN conjunct2])
    ultimately show "recorded_args args = kept_args E args (options1, g)"
      by (rule recorded_args_kept_args [OF parse])
  qed
qed

theorem parse_options_records_by_spelling_witness:
  "parse_options example_env default_Options default_Globals ex_value_argv
     = Inr (ex_value_options, default_Globals)
   \<and> solver_profile_filename ex_value_options = ''-a''
   \<and> solver ex_value_options = ''cvc5''
   \<and> api_trace_file_name ex_value_options = []
   \<and> cmd_line_trace ex_value_options = ''set-murxla-options -p -v''
   \<and> recorded_args ex_value_args = [''-p'', ''-v'']
   \<and> kept_args example_env ex_value_args (default_Options, default_Globals)
       = [''-p'', ''-a'', ''--cvc5'', ''-v'']
   \<and> recorded_args ex_value_args
       \<noteq> kept_args example_env ex_value_args (default_Options, default_Globals)
   \<and> parse_options example_env default_Options default_Globals ex_argv
       = Inr (ex_options, default_Globals)
   \<and> cmd_line_trace ex_options = ''set-murxla-options --cvc5 -t 5''
   \<and> recorded_args ex_args = kept_args example_env ex_args (ex_options1, default_Globals)
   \<and> kept_args example_env ex_args (ex_options1, default_Globals) = [''--cvc5'', ''-t'', ''5'']"
proof -
  have rec: "recorded_args ex_value_args = [''-p'', ''-v'']"
    by (simp add: ex_value_args_def)
  note bad = parse_options_records_by_spelling [OF ex_value_parse_options ex_value_get_options]
  from bad have "cmd_line_trace ex_value_options
          = ''set-murxla-options'' @ concat (map (\<lambda>a. '' '' @ a) (recorded_args ex_value_args))"
    by (rule conjunct1)
  then have line: "cmd_line_trace ex_value_options = ''set-murxla-options -p -v''"
    unfolding rec by simp
  from bad ex_value_flag_spelled
  have differ: "recorded_args ex_value_args
                  \<noteq> kept_args example_env ex_value_args (default_Options, default_Globals)"
    by (elim conjE) (erule (1) mp)
  have nu: "''-u'' \<notin> set ex_args" "''--untrace'' \<notin> set ex_args"
    by (simp_all add: ex_args_def)
  note good = parse_options_records_by_spelling [OF ex_parse_options ex_get_options]
  from good ex_not_flag_spelled nu
  have same: "recorded_args ex_args = kept_args example_env ex_args (ex_options1, default_Globals)"
    by (elim conjE) (erule mp, intro conjI)
  have fields: "solver_profile_filename ex_value_options = ''-a''"
    "solver ex_value_options = ''cvc5''" "api_trace_file_name ex_value_options = []"
    "cmd_line_trace ex_options = ''set-murxla-options --cvc5 -t 5''"
    by (simp_all add: ex_value_options_def ex_options_def default_Options_def)
  from ex_value_parse_options fields line rec ex_value_kept_args differ ex_parse_options same ex_kept_args
  show ?thesis
    by (intro conjI)
qed

subsection \<open>Tracing into the replayed file\<close>

text \<open>
  Claim C9. When the name of the file to trace to is not empty and is the name of the
  file to replay, \<open>main\<close> writes the error \<open>tracing into the file that is untraced is
  not supported\<close> and exits, with the status \<open>EXIT_ERROR\<close>, before it reaches the block
  that constructs \<open>Murxla\<close>: nothing is run, traced or replayed.
\<close>

theorem main_trace_into_untraced_file:
  assumes "initialize_statistics E = None"
    and "parse_options E default_Options default_Globals argv = Inr (options, g)"
    and "create_tmp_directory E (tmp_dir options) = Some d"
    and "api_trace_file_name options \<noteq> []"
    and "api_trace_file_name options = untrace_file_name options"
  shows "main E argv
           = Terminated (Exit EXIT_ERROR
               (''murxla: ERROR: tracing into the file that is untraced is not supported''
                @ [CHR 0x0A]))"
  using assms
  by (simp add: main_def MURXLA_EXIT_ERROR_def ExitStream_def)

theorem main_trace_into_untraced_file_witness:
  "main example_env ex_argv
     = Terminated (Exit EXIT_ERROR
         (''murxla: ERROR: tracing into the file that is untraced is not supported''
          @ [CHR 0x0A]))"
  using main_trace_into_untraced_file
          [OF ex_initialize_statistics ex_parse_options ex_create_tmp_directory]
  by (simp add: ex_file_names)

text \<open>Conversely, \<open>main\<close> reaches the block only with two different files, or no trace.\<close>

lemma main_Enters_try:
  assumes "main E argv = Enters_try options g d"
  shows "api_trace_file_name options = [] \<or> api_trace_file_name options \<noteq> untrace_file_name options"
  using assms
  by (auto simp: main_def split: option.splits sum.splits if_splits)

subsection \<open>The theories disabled by default\<close>

text \<open>
  Claim C10. \<open>disabled_theories\<close> is initialised to the theories of bags, sequences and
  sets, and to no other theory; and this is still its value after \<open>parse_options\<close>, when
  the command line (with the options of the replayed trace) has none of the switches
  \<open>--no-...\<close>.
\<close>

theorem disabled_theories_default:
  assumes "parse_options E default_Options g argv = Inr (options', g')"
    and "get_options E default_Options argv = Inr (options1, args)"
    and "set args \<inter> no_theory_flags = {}"
  shows "disabled_theories default_Options = {THEORY_BAG, THEORY_SEQ, THEORY_SET}
         \<and> disabled_theories options' = {THEORY_BAG, THEORY_SEQ, THEORY_SET}"
proof -
  have d: "disabled_theories default_Options = {THEORY_BAG, THEORY_SEQ, THEORY_SET}"
    by (simp add: default_Options_def)
  from get_options_frame [OF assms(2)] have d1: "disabled_theories options1 = disabled_theories default_Options"
    by auto
  from assms(1,2) obtain options2 g2 where
    p: "parse_args E args (options1, g) = Inr (options2, g2)"
    and "disabled_theories options' = disabled_theories options2"
    by (auto simp: parse_options_def Let_def split: sum.splits prod.splits)
  with parse_args_disabled [OF p assms(3)] d d1 show ?thesis
    by simp
qed

theorem disabled_theories_default_witness:
  "disabled_theories ex_options = {THEORY_BAG, THEORY_SEQ, THEORY_SET}"
  using disabled_theories_default [OF ex_parse_options ex_get_options]
  by (simp add: ex_args_def no_theory_flags_def)

end
